theory Spec2Isabelle
  imports Complex_Main "HOL-Library.Log_Nat" "HOL-Library.AList" "HOL-Library.Sublist"
begin

section \<open>Python values\<close>

text \<open>
  The engine of \<^verbatim>\<open>main.py\<close> works on dictionaries whose values are dynamically typed:
  a product is a MongoDB document (or one of the hard-coded seed dictionaries), and the
  configuration it fills is \<^verbatim>\<open>cust.model_dump()\<close>. A dictionary is an association list
  in insertion order; \<open>map_of\<close> reads it and \<open>AList.update\<close> writes it (replacing in place,
  appending a new key at the end, as a Python \<^verbatim>\<open>dict\<close> does).

  A Python \<^verbatim>\<open>float\<close> is an IEEE 754 binary64 number: a finite double is represented by the
  rational number it denotes (both zeros by \<open>0\<close>), next to the two infinities and NaN.
  Strings are lists of 8-bit characters, so \<^verbatim>\<open>str.lower\<close> is modelled on the ASCII letters.
\<close>

datatype pyfloat = Finite rat | PInf | NInf | NaN

datatype pval =
    VNone
  | VBool bool
  | VInt int
  | VFloat pyfloat
  | VStr string
  | VList "pval list"
  | VDict "(string \<times> pval) list"
  | VOid string

type_synonym pdict = "(string \<times> pval) list"

datatype error = TypeError | AttributeError | ValidationError | OverflowError | InvalidId

subsection \<open>Truthiness and dictionary access\<close>

fun float_truthy :: "pyfloat \<Rightarrow> bool" where
  "float_truthy (Finite x) = (x \<noteq> 0)"
| "float_truthy PInf = True"
| "float_truthy NInf = True"
| "float_truthy NaN = True"

fun truthy :: "pval \<Rightarrow> bool" where
  "truthy VNone = False"
| "truthy (VBool b) = b"
| "truthy (VInt i) = (i \<noteq> 0)"
| "truthy (VFloat f) = float_truthy f"
| "truthy (VStr s) = (s \<noteq> [])"
| "truthy (VList xs) = (xs \<noteq> [])"
| "truthy (VDict d) = (d \<noteq> [])"
| "truthy (VOid h) = True"

definition dict_get :: "pdict \<Rightarrow> string \<Rightarrow> pval" where
  \<comment> \<open>\<^verbatim>\<open>d.get(k)\<close>: \<^verbatim>\<open>None\<close> for a missing key\<close>
  "dict_get d k = (case map_of d k of None \<Rightarrow> VNone | Some v \<Rightarrow> v)"

definition dict_get_default :: "pdict \<Rightarrow> string \<Rightarrow> pval \<Rightarrow> pval" where
  \<comment> \<open>\<^verbatim>\<open>d.get(k, default)\<close>\<close>
  "dict_get_default d k dflt = (case map_of d k of None \<Rightarrow> dflt | Some v \<Rightarrow> v)"

definition dict_truthy :: "pdict option \<Rightarrow> bool" where
  \<comment> \<open>truthiness of an \<^verbatim>\<open>Optional[dict]\<close>: \<^verbatim>\<open>None\<close> and the empty dictionary are falsy\<close>
  "dict_truthy d = (case d of None \<Rightarrow> False | Some p \<Rightarrow> p \<noteq> [])"

subsection \<open>Binary64 arithmetic\<close>

definition pow2 :: "int \<Rightarrow> rat" where
  "pow2 k = (if 0 \<le> k then 2 ^ nat k else 1 / 2 ^ nat (- k))"

definition round_half_even :: "rat \<Rightarrow> int" where
  "round_half_even x =
     (let f = \<lfloor>x\<rfloor>; d = x - of_int f
      in if d < 1 / 2 then f else if 1 / 2 < d then f + 1
         else if even f then f else f + 1)"

definition ilog2 :: "rat \<Rightarrow> int" where
  \<comment> \<open>\<open>\<lfloor>log\<^sub>2 a\<rfloor>\<close> for \<open>a > 0\<close>, from the bit lengths of numerator and denominator\<close>
  "ilog2 a = (let (p, q) = quotient_of a; e = bitlen p - bitlen q
              in if pow2 e \<le> a then e else e - 1)"

definition fl :: "rat \<Rightarrow> pyfloat" where
  \<comment> \<open>round to nearest double, ties to even: 53 significant bits, least exponent \<open>-1074\<close>,
      overflow to an infinity when the rounded value reaches \<open>2\<^sup>1\<^sup>0\<^sup>2\<^sup>4\<close>\<close>
  "fl x =
     (if x = 0 then Finite 0
      else let a = \<bar>x\<bar>;
               q = max (ilog2 a - 52) (- 1074);
               r = of_int (round_half_even (a / pow2 q)) * pow2 q
           in if 1024 \<le> ilog2 r then (if 0 < x then PInf else NInf)
              else Finite (if 0 < x then r else - r))"

fun fmul :: "pyfloat \<Rightarrow> pyfloat \<Rightarrow> pyfloat" where
  "fmul (Finite a) (Finite b) = fl (a * b)"
| "fmul NaN y = NaN"
| "fmul x NaN = NaN"
| "fmul PInf (Finite b) = (if b = 0 then NaN else if 0 < b then PInf else NInf)"
| "fmul NInf (Finite b) = (if b = 0 then NaN else if 0 < b then NInf else PInf)"
| "fmul (Finite a) PInf = (if a = 0 then NaN else if 0 < a then PInf else NInf)"
| "fmul (Finite a) NInf = (if a = 0 then NaN else if 0 < a then NInf else PInf)"
| "fmul PInf PInf = PInf"
| "fmul PInf NInf = NInf"
| "fmul NInf PInf = NInf"
| "fmul NInf NInf = PInf"

fun fadd :: "pyfloat \<Rightarrow> pyfloat \<Rightarrow> pyfloat" where
  "fadd (Finite a) (Finite b) = fl (a + b)"
| "fadd NaN y = NaN"
| "fadd x NaN = NaN"
| "fadd PInf NInf = NaN"
| "fadd NInf PInf = NaN"
| "fadd PInf y = PInf"
| "fadd NInf y = NInf"
| "fadd x PInf = PInf"
| "fadd x NInf = NInf"

fun float_lt :: "pyfloat \<Rightarrow> pyfloat \<Rightarrow> bool" where
  "float_lt (Finite a) (Finite b) = (a < b)"
| "float_lt NaN y = False"
| "float_lt x NaN = False"
| "float_lt PInf y = False"
| "float_lt x NInf = False"
| "float_lt NInf y = True"
| "float_lt x PInf = True"

definition float_gt :: "pyfloat \<Rightarrow> pyfloat \<Rightarrow> bool" where
  "float_gt x y = float_lt y x"

fun py_round2 :: "pyfloat \<Rightarrow> pyfloat" where
  \<comment> \<open>\<^verbatim>\<open>round(x, 2)\<close>: the nearest decimal with two places (ties to even on the exact
      value), read back as a double; infinities and NaN round to themselves\<close>
  "py_round2 (Finite x) = fl (of_int (round_half_even (x * 100)) / 100)"
| "py_round2 PInf = PInf"
| "py_round2 NInf = NInf"
| "py_round2 NaN = NaN"

definition int_to_float :: "int \<Rightarrow> error + pyfloat" where
  \<comment> \<open>the conversion of an \<^verbatim>\<open>int\<close> operand of a float operation\<close>
  "int_to_float i =
     (case fl (of_int i) of
        Finite r \<Rightarrow> Inr (Finite r)
      | _ \<Rightarrow> Inl OverflowError)"

fun py_mul :: "pval \<Rightarrow> pyfloat \<Rightarrow> error + pyfloat" where
  \<comment> \<open>\<^verbatim>\<open>v * m\<close> for a float \<^verbatim>\<open>m\<close>\<close>
  "py_mul (VFloat f) m = Inr (fmul f m)"
| "py_mul (VInt i) m =
     (case int_to_float i of Inl e \<Rightarrow> Inl e | Inr f \<Rightarrow> Inr (fmul f m))"
| "py_mul (VBool b) m = Inr (fmul (Finite (if b then 1 else 0)) m)"
| "py_mul v m = Inl TypeError"

subsection \<open>Strings\<close>

definition lower_char :: "char \<Rightarrow> char" where
  "lower_char c =
     (let n = (of_char c :: nat) in if 65 \<le> n \<and> n \<le> 90 then char_of (n + 32) else c)"

definition lower :: "string \<Rightarrow> string" where
  "lower s = map lower_char s"

fun str_contains :: "string \<Rightarrow> string \<Rightarrow> bool" where
  \<comment> \<open>\<^verbatim>\<open>w in s\<close> for strings: \<open>w\<close> occurs in \<open>s\<close> as a contiguous substring\<close>
  "str_contains w [] = (w = [])"
| "str_contains w (c # cs) = (prefix w (c # cs) \<or> str_contains w cs)"

fun py_lower :: "pval \<Rightarrow> error + string" where
  \<comment> \<open>\<^verbatim>\<open>v.lower()\<close>: only a string has the method\<close>
  "py_lower (VStr s) = Inr (lower s)"
| "py_lower v = Inl AttributeError"

section \<open>The request models of \<^verbatim>\<open>schemas.py\<close>\<close>

record measurement =
  height_cm :: "pyfloat option"
  weight_kg :: "pyfloat option"
  chest_cm :: "pyfloat option"
  waist_cm :: "pyfloat option"
  hips_cm :: "pyfloat option"
  sleeve_cm :: "pyfloat option"
  inseam_cm :: "pyfloat option"

text \<open>The field \<^verbatim>\<open>size\<close> of \<^verbatim>\<open>Customization\<close> is \<open>size_opt\<close> here (\<open>size\<close> is a constant of HOL).\<close>

record customization =
  product_id :: "string option"
  category :: string
  color :: "string option"
  fabric :: "string option"
  size_opt :: "string option"
  fit :: "string option"
  pattern :: "string option"
  preferences :: "string option"
  auto :: bool
  measurements :: "measurement option"

definition valid_measurement :: "measurement \<Rightarrow> bool" where
  \<comment> \<open>the bound pydantic enforces on \<^verbatim>\<open>chest_cm\<close> (\<^verbatim>\<open>ge=60, le=150\<close>) when a
      \<^verbatim>\<open>Measurement\<close> is built\<close>
  "valid_measurement m =
     (case chest_cm m of
        None \<Rightarrow> True
      | Some c \<Rightarrow> \<not> float_lt c (Finite 60) \<and> \<not> float_lt (Finite 150) c \<and> c \<noteq> NaN)"

definition opt_str :: "string option \<Rightarrow> pval" where
  "opt_str v = (case v of None \<Rightarrow> VNone | Some s \<Rightarrow> VStr s)"

definition opt_float :: "pyfloat option \<Rightarrow> pval" where
  "opt_float v = (case v of None \<Rightarrow> VNone | Some f \<Rightarrow> VFloat f)"

definition measurement_dump :: "measurement \<Rightarrow> pdict" where
  "measurement_dump m =
     [(''height_cm'', opt_float (height_cm m)),
      (''weight_kg'', opt_float (weight_kg m)),
      (''chest_cm'', opt_float (chest_cm m)),
      (''waist_cm'', opt_float (waist_cm m)),
      (''hips_cm'', opt_float (hips_cm m)),
      (''sleeve_cm'', opt_float (sleeve_cm m)),
      (''inseam_cm'', opt_float (inseam_cm m))]"

definition model_dump :: "customization \<Rightarrow> pdict" where
  \<comment> \<open>\<^verbatim>\<open>cust.model_dump()\<close>: every field of the model, in declaration order\<close>
  "model_dump c =
     [(''product_id'', opt_str (product_id c)),
      (''category'', VStr (category c)),
      (''color'', opt_str (color c)),
      (''fabric'', opt_str (fabric c)),
      (''size'', opt_str (size_opt c)),
      (''fit'', opt_str (fit c)),
      (''pattern'', opt_str (pattern c)),
      (''preferences'', opt_str (preferences c)),
      (''auto'', VBool (auto c)),
      (''measurements'',
         (case measurements c of None \<Rightarrow> VNone | Some m \<Rightarrow> VDict (measurement_dump m)))]"

section \<open>The completion engine: \<^verbatim>\<open>auto_complete_customization\<close>\<close>

definition defaults :: "(string \<times> pdict) list" where
  "defaults =
     [(''suit'', [(''fit'', VStr ''tailored''), (''fabric'', VStr ''worsted wool''),
                  (''color'', VStr ''navy''), (''pattern'', VStr ''solid'')]),
      (''boots'', [(''color'', VStr ''oxblood''), (''fabric'', VStr ''full-grain leather''),
                   (''fit'', VStr ''regular'')]),
      (''shoes'', [(''color'', VStr ''chestnut''), (''fabric'', VStr ''calf leather''),
                   (''fit'', VStr ''regular'')]),
      (''hat'', [(''color'', VStr ''charcoal''), (''fabric'', VStr ''felt''),
                 (''pattern'', VStr ''solid'')]),
      (''belt'', [(''color'', VStr ''dark brown''), (''fabric'', VStr ''leather'')]),
      (''shirt'', [(''color'', VStr ''white''), (''fabric'', VStr ''oxford''),
                   (''fit'', VStr ''slim'')]),
      (''trousers'', [(''color'', VStr ''charcoal''), (''fabric'', VStr ''wool''),
                      (''fit'', VStr ''classic'')])]"

definition category_defaults :: "string \<Rightarrow> pdict" where
  \<comment> \<open>\<^verbatim>\<open>base = defaults.get(category, {})\<close>\<close>
  "category_defaults cat = (case map_of defaults cat of None \<Rightarrow> [] | Some b \<Rightarrow> b)"

definition option_keys :: "string list" where
  "option_keys = [''color'', ''fabric'', ''size'', ''fit'', ''pattern'']"

definition inherit_key :: "pdict \<Rightarrow> pdict \<Rightarrow> string \<Rightarrow> pdict" where
  \<comment> \<open>one round of the loop over \<open>option_keys\<close>, for a product and the result so far\<close>
  "inherit_key product result key =
     (if \<not> truthy (dict_get result key) then
        (let options = (if map_of product (key @ ''s'') \<noteq> None
                        then dict_get product (key @ ''s'')
                        else dict_get product key)
         in case options of
              VList (x # xs) \<Rightarrow> AList.update key x result
            | _ \<Rightarrow> result)
      else result)"

definition inherit_options :: "pdict option \<Rightarrow> pdict \<Rightarrow> pdict" where
  \<comment> \<open>\<^verbatim>\<open>if product: for key in [...]: ...\<close>\<close>
  "inherit_options product result =
     (case product of
        None \<Rightarrow> result
      | Some p \<Rightarrow> if p \<noteq> [] then foldl (inherit_key p) result option_keys else result)"

definition default_key :: "pdict \<Rightarrow> string \<times> pval \<Rightarrow> pdict" where
  \<comment> \<open>\<^verbatim>\<open>result[k] = result.get(k) or v\<close>\<close>
  "default_key result kv =
     (case kv of (k, v) \<Rightarrow>
        AList.update k (if truthy (dict_get result k) then dict_get result k else v) result)"

definition apply_defaults :: "pdict \<Rightarrow> pdict \<Rightarrow> pdict" where
  \<comment> \<open>\<^verbatim>\<open>for k, v in base.items(): ...\<close>\<close>
  "apply_defaults base result = foldl default_key result base"

definition size_band :: "pyfloat \<Rightarrow> string" where
  "size_band c =
     (if float_lt c (Finite 90) then ''XS''
      else if float_lt c (Finite 96) then ''S''
      else if float_lt c (Finite 102) then ''M''
      else if float_lt c (Finite 110) then ''L''
      else ''XL'')"

definition infer_size :: "measurement option \<Rightarrow> pdict \<Rightarrow> pdict" where
  \<comment> \<open>\<^verbatim>\<open>if not result.get("size") and m and m.chest_cm: ...\<close>; a model instance is truthy\<close>
  "infer_size m result =
     (if \<not> truthy (dict_get result ''size'') then
        (case m of
           None \<Rightarrow> result
         | Some ms \<Rightarrow>
             (case chest_cm ms of
                None \<Rightarrow> result
              | Some c \<Rightarrow>
                  if float_truthy c then AList.update ''size'' (VStr (size_band c)) result
                  else result))
      else result)"

definition fabric_multiplier :: "pdict \<Rightarrow> pyfloat \<Rightarrow> error + pyfloat" where
  "fabric_multiplier result multipliers =
     (if truthy (dict_get result ''fabric'') then
        (case py_lower (dict_get result ''fabric'') of
           Inl e \<Rightarrow> Inl e
         | Inr fab \<Rightarrow>
             Inr (if str_contains ''cashmere'' fab then fadd multipliers (fl (6 / 10))
                  else if str_contains ''wool'' fab then fadd multipliers (fl (25 / 100))
                  else if str_contains ''leather'' fab then fadd multipliers (fl (35 / 100))
                  else if str_contains ''linen'' fab then fadd multipliers (fl (15 / 100))
                  else multipliers))
      else Inr multipliers)"

definition pattern_multiplier :: "pdict \<Rightarrow> pyfloat \<Rightarrow> error + pyfloat" where
  "pattern_multiplier result multipliers =
     (if truthy (dict_get result ''pattern'') then
        (case py_lower (dict_get result ''pattern'') of
           Inl e \<Rightarrow> Inl e
         | Inr s \<Rightarrow>
             Inr (if s \<in> set [''pinstripe'', ''herringbone'', ''houndstooth'']
                  then fadd multipliers (fl (1 / 10)) else multipliers))
      else Inr multipliers)"

definition fit_multiplier :: "pdict \<Rightarrow> pyfloat \<Rightarrow> error + pyfloat" where
  "fit_multiplier result multipliers =
     (if truthy (dict_get result ''fit'') then
        (case py_lower (dict_get result ''fit'') of
           Inl e \<Rightarrow> Inl e
         | Inr s \<Rightarrow>
             Inr (if s \<in> set [''tailored'', ''slim'']
                  then fadd multipliers (fl (5 / 100)) else multipliers))
      else Inr multipliers)"

definition base_price_of :: "pdict option \<Rightarrow> pval" where
  \<comment> \<open>\<^verbatim>\<open>product.get("base_price", 300) if product else 300\<close>\<close>
  "base_price_of product =
     (case product of
        None \<Rightarrow> VInt 300
      | Some p \<Rightarrow> if p \<noteq> [] then dict_get_default p ''base_price'' (VInt 300) else VInt 300)"

definition estimate_price :: "pdict option \<Rightarrow> pdict \<Rightarrow> error + pyfloat" where
  "estimate_price product result =
     (let base_price = base_price_of product in
      case fabric_multiplier result (Finite 1) of
        Inl e \<Rightarrow> Inl e
      | Inr m1 \<Rightarrow>
         (case pattern_multiplier result m1 of
            Inl e \<Rightarrow> Inl e
          | Inr m2 \<Rightarrow>
             (case fit_multiplier result m2 of
                Inl e \<Rightarrow> Inl e
              | Inr m3 \<Rightarrow>
                 (case py_mul base_price m3 of
                    Inl e \<Rightarrow> Inl e
                  | Inr x \<Rightarrow> Inr (py_round2 x)))))"

record completion =
  config :: pdict
  est_price :: pyfloat

definition fill_fields :: "customization \<Rightarrow> pdict option \<Rightarrow> pdict" where
  \<comment> \<open>the three fill steps, in the order of the source\<close>
  "fill_fields cust product =
     infer_size (measurements cust)
       (apply_defaults (category_defaults (category cust))
          (inherit_options product (model_dump cust)))"

definition auto_complete_customization ::
    "customization \<Rightarrow> pdict option \<Rightarrow> error + completion" where
  "auto_complete_customization cust product =
     (let result = fill_fields cust product in
      case estimate_price product result of
        Inl e \<Rightarrow> Inl e
      | Inr p \<Rightarrow> Inr \<lparr>config = result, est_price = p\<rparr>)"

section \<open>The collaborators outside the engine\<close>

text \<open>
  The document store (\<^verbatim>\<open>database.py\<close> and the \<^verbatim>\<open>bson\<close> library) is a parameter of the
  endpoints that use it:
  \<^item> \<open>get_documents coll filt limit\<close> is the list the store returns for a filter;
  \<^item> \<open>find_product pid\<close> is \<^verbatim>\<open>db["product"].find_one({"_id": ObjectId(pid)})\<close>:
    \<open>Inl\<close> when \<^verbatim>\<open>ObjectId\<close> rejects a malformed identifier or the store raises,
    \<open>Inr None\<close> when no document has the identifier;
  \<^item> \<open>py_str\<close> is the builtin \<^verbatim>\<open>str\<close> on the values a document holds.
\<close>

record env =
  get_documents :: "string \<Rightarrow> pdict \<Rightarrow> nat \<Rightarrow> pdict list"
  find_product :: "string \<Rightarrow> error + pdict option"
  py_str :: "pval \<Rightarrow> string"

section \<open>The endpoint \<^verbatim>\<open>customize\<close>\<close>

definition load_product :: "env \<Rightarrow> customization \<Rightarrow> pdict option" where
  \<comment> \<open>the \<^verbatim>\<open>try\<close> block: any exception leaves \<^verbatim>\<open>product = None\<close>; a document found has its
      \<^verbatim>\<open>_id\<close> popped (a \<^verbatim>\<open>KeyError\<close> when it has none) and stored as the string \<^verbatim>\<open>id\<close>\<close>
  "load_product ev cust =
     (case product_id cust of
        None \<Rightarrow> None
      | Some pid \<Rightarrow>
          if pid \<noteq> [] then
            (case find_product ev pid of
               Inl e \<Rightarrow> None
             | Inr None \<Rightarrow> None
             | Inr (Some p) \<Rightarrow>
                 if p \<noteq> [] then
                   (case map_of p ''_id'' of
                      None \<Rightarrow> None
                    | Some v \<Rightarrow>
                        Some (AList.update ''id'' (VStr (py_str ev v)) (AList.delete ''_id'' p)))
                 else Some p)
          else None)"

definition customize :: "env \<Rightarrow> customization \<Rightarrow> error + completion" where
  "customize ev cust = auto_complete_customization cust (load_product ev cust)"

section \<open>The ranker: \<^verbatim>\<open>recommendations\<close>\<close>

text \<open>The field \<^verbatim>\<open>category\<close> of \<^verbatim>\<open>RecommendationRequest\<close> is \<open>req_category\<close> here.\<close>

record recommendation_request =
  purpose :: "string option"
  style :: "string option"
  climate :: "string option"
  budget :: "pyfloat option"
  req_category :: "string option"
  colors :: "string list option"

text \<open>One element of the list \<^verbatim>\<open>out\<close>; its keys \<^verbatim>\<open>product_id\<close>, \<^verbatim>\<open>category\<close> and
  \<^verbatim>\<open>est_price\<close> carry the prefix \<open>rec_\<close>.\<close>

record recommendation =
  rec_product_id :: "string option"
  title :: pval
  rec_category :: pval
  suggested_config :: pdict
  rec_est_price :: pyfloat
  rationale :: string

definition seed :: "pdict list" where
  "seed =
     [[(''title'', VStr ''Savile Row Three-Piece Suit''), (''category'', VStr ''suit''),
       (''base_price'', VInt 1200)],
      [(''title'', VStr ''Full-Grain Leather Boots''), (''category'', VStr ''boots''),
       (''base_price'', VInt 380)],
      [(''title'', VStr ''Classic Oxford Shirt''), (''category'', VStr ''shirt''),
       (''base_price'', VInt 120)]]"

definition category_filter :: "recommendation_request \<Rightarrow> pdict" where
  \<comment> \<open>\<^verbatim>\<open>filt\<close>: the category, when the request has a non-empty one\<close>
  "category_filter req =
     (case req_category req of
        None \<Rightarrow> []
      | Some c \<Rightarrow> if c \<noteq> [] then [(''category'', VStr c)] else [])"

definition candidates :: "env \<Rightarrow> recommendation_request \<Rightarrow> pdict list" where
  \<comment> \<open>the catalog's answer, or the seed when it is empty; then \<^verbatim>\<open>products[:6]\<close>\<close>
  "candidates ev req =
     (let products = get_documents ev ''product'' (category_filter req) 50
      in take 6 (if products = [] then seed else products))"

definition new_customization :: "pval \<Rightarrow> error + customization" where
  \<comment> \<open>\<^verbatim>\<open>Customization(category=v)\<close>: pydantic accepts a string for the field only\<close>
  "new_customization v =
     (case v of
        VStr s \<Rightarrow>
          Inr \<lparr>product_id = None, category = s, color = None, fabric = None, size_opt = None,
               fit = None, pattern = None, preferences = None, auto = False,
               measurements = None\<rparr>
      | _ \<Rightarrow> Inl ValidationError)"

definition candidate_category :: "recommendation_request \<Rightarrow> pdict \<Rightarrow> pval" where
  \<comment> \<open>\<^verbatim>\<open>p.get("category", req.category or "suit")\<close>\<close>
  "candidate_category req p =
     dict_get_default p ''category''
       (case req_category req of
          None \<Rightarrow> VStr ''suit''
        | Some c \<Rightarrow> if c \<noteq> [] then VStr c else VStr ''suit'')"

definition over_budget :: "recommendation_request \<Rightarrow> pyfloat \<Rightarrow> bool" where
  \<comment> \<open>\<^verbatim>\<open>req.budget and price > req.budget * 1.2\<close>\<close>
  "over_budget req price =
     (case budget req of
        None \<Rightarrow> False
      | Some b \<Rightarrow> float_truthy b \<and> float_gt price (fmul b (fl (12 / 10))))"

definition choose_rationale :: "recommendation_request \<Rightarrow> string" where
  \<comment> \<open>the default, then the two assignments in the order of the source\<close>
  "choose_rationale req =
     (let r0 = ''Balanced choice with premium materials'';
          r1 = (case style req of
                  None \<Rightarrow> r0
                | Some s \<Rightarrow>
                    if s \<noteq> [] \<and> lower s \<in> set [''vintage'', ''classic'']
                    then ''Vintage-forward aesthetic with timeless details'' else r0)
      in case purpose req of
           None \<Rightarrow> r1
         | Some u \<Rightarrow>
             if u \<noteq> [] \<and> str_contains ''wedding'' (lower u)
             then ''Formal-appropriate with elevated finishing'' else r1)"

definition make_recommendation ::
    "env \<Rightarrow> recommendation_request \<Rightarrow> pdict \<Rightarrow> completion \<Rightarrow> recommendation" where
  "make_recommendation ev req p cmpl =
     \<lparr>rec_product_id =
        (if p \<noteq> [] \<and> truthy (dict_get p ''_id'') then Some (py_str ev (dict_get p ''_id''))
         else None),
      title = dict_get p ''title'',
      rec_category = dict_get p ''category'',
      suggested_config = config cmpl,
      rec_est_price = est_price cmpl,
      rationale = choose_rationale req\<rparr>"

definition complete_candidate :: "recommendation_request \<Rightarrow> pdict \<Rightarrow> error + completion" where
  \<comment> \<open>the first two statements of the loop body: the minimal customization of the candidate
      and its completion with the candidate as product\<close>
  "complete_candidate req p =
     (case new_customization (candidate_category req p) of
        Inl e \<Rightarrow> Inl e
      | Inr cust \<Rightarrow> auto_complete_customization cust (Some p))"

definition rank_candidate ::
    "env \<Rightarrow> recommendation_request \<Rightarrow> pdict \<Rightarrow> error + recommendation option" where
  \<comment> \<open>the body of the loop for one candidate: \<open>Inr None\<close> is \<^verbatim>\<open>continue\<close>, \<open>Inr (Some r)\<close> the
      dictionary appended to \<^verbatim>\<open>out\<close>\<close>
  "rank_candidate ev req p =
     (case complete_candidate req p of
        Inl e \<Rightarrow> Inl e
      | Inr cmpl \<Rightarrow>
          if over_budget req (est_price cmpl) then Inr None
          else Inr (Some (make_recommendation ev req p cmpl)))"

fun rank_loop ::
    "env \<Rightarrow> recommendation_request \<Rightarrow> pdict list \<Rightarrow> recommendation list \<Rightarrow>
     error + recommendation list" where
  \<comment> \<open>\<^verbatim>\<open>for p in products[:6]: ...\<close> with its \<^verbatim>\<open>break\<close> once three are accumulated\<close>
  "rank_loop ev req [] out = Inr out"
| "rank_loop ev req (p # ps) out =
     (case rank_candidate ev req p of
        Inl e \<Rightarrow> Inl e
      | Inr None \<Rightarrow> rank_loop ev req ps out
      | Inr (Some r) \<Rightarrow>
          (let out' = out @ [r]
           in if 3 \<le> length out' then Inr out' else rank_loop ev req ps out'))"

definition recommendations ::
    "env \<Rightarrow> recommendation_request \<Rightarrow> error + recommendation list" where
  \<comment> \<open>the list under the key \<^verbatim>\<open>recommendations\<close> of the response\<close>
  "recommendations ev req = rank_loop ev req (candidates ev req) []"

section \<open>The router: \<^verbatim>\<open>chat\<close>\<close>






definition blank_request :: recommendation_request where
  "blank_request =
     \<lparr>purpose = None, style = None, climate = None, budget = None, req_category = None,
      colors = None\<rparr>"


section \<open>The statements of the specification\<close>

text \<open>
  The functions of this section are written from the specification, not from the source:
  the price multiplier and the size bands as its sentences give them, and the vocabulary
  its claims use about requests and utterances.
\<close>

definition text_of :: "pval \<Rightarrow> string" where
  \<comment> \<open>the text of a resolved field; an unset field has none\<close>
  "text_of v = (case v of VStr s \<Rightarrow> s | _ \<Rightarrow> [])"

definition spec_fabric_bonus :: "string \<Rightarrow> pyfloat option" where
  \<comment> \<open>the one fabric bonus, by the first keyword the lower-cased fabric name contains\<close>
  "spec_fabric_bonus fab =
     (if str_contains ''cashmere'' (lower fab) then Some (fl (60 / 100))
      else if str_contains ''wool'' (lower fab) then Some (fl (25 / 100))
      else if str_contains ''leather'' (lower fab) then Some (fl (35 / 100))
      else if str_contains ''linen'' (lower fab) then Some (fl (15 / 100))
      else None)"

definition spec_pattern_bonus :: "string \<Rightarrow> pyfloat option" where
  "spec_pattern_bonus pat =
     (if lower pat \<in> {''pinstripe'', ''herringbone'', ''houndstooth''} then Some (fl (10 / 100))
      else None)"

definition spec_fit_bonus :: "string \<Rightarrow> pyfloat option" where
  "spec_fit_bonus ft =
     (if lower ft \<in> {''tailored'', ''slim''} then Some (fl (5 / 100)) else None)"

definition add_bonus :: "pyfloat \<Rightarrow> pyfloat option \<Rightarrow> pyfloat" where
  "add_bonus m b = (case b of None \<Rightarrow> m | Some x \<Rightarrow> fadd m x)"

definition spec_multiplier :: "pdict \<Rightarrow> pyfloat" where
  \<comment> \<open>the multiplier of a resolved configuration: 1.0, then the fabric, pattern and fit
      bonuses added in this order\<close>
  "spec_multiplier cfg =
     add_bonus
       (add_bonus
          (add_bonus (Finite 1) (spec_fabric_bonus (text_of (dict_get cfg ''fabric''))))
          (spec_pattern_bonus (text_of (dict_get cfg ''pattern''))))
       (spec_fit_bonus (text_of (dict_get cfg ''fit'')))"

definition spec_base :: "pdict option \<Rightarrow> pval" where
  \<comment> \<open>the base price: the product's \<^verbatim>\<open>base_price\<close>, 300 without one\<close>
  "spec_base product =
     (case product of
        None \<Rightarrow> VInt 300
      | Some p \<Rightarrow> (case map_of p ''base_price'' of None \<Rightarrow> VInt 300 | Some v \<Rightarrow> v))"

definition spec_size :: "rat \<Rightarrow> string" where
  \<comment> \<open>the size bands of the specification, closed below and open above\<close>
  "spec_size c =
     (if c < 90 then ''XS''
      else if 90 \<le> c \<and> c < 96 then ''S''
      else if 96 \<le> c \<and> c < 102 then ''M''
      else if 102 \<le> c \<and> c < 110 then ''L''
      else ''XL'')"

definition chest_of :: "customization \<Rightarrow> pyfloat option" where
  \<comment> \<open>the chest measurement of a request, when it has measurements and they include one\<close>
  "chest_of cust = (case measurements cust of None \<Rightarrow> None | Some m \<Rightarrow> chest_cm m)"

definition set_option_field :: "string \<Rightarrow> string option \<Rightarrow> customization \<Rightarrow> customization" where
  \<comment> \<open>the request with one of its five option fields replaced, the field named by its key\<close>
  "set_option_field k v c =
     (if k = ''color'' then c\<lparr>color := v\<rparr>
      else if k = ''fabric'' then c\<lparr>fabric := v\<rparr>
      else if k = ''size'' then c\<lparr>size_opt := v\<rparr>
      else if k = ''fit'' then c\<lparr>fit := v\<rparr>
      else if k = ''pattern'' then c\<lparr>pattern := v\<rparr>
      else c)"




section \<open>Relations between results\<close>

definition agree_but :: "string \<Rightarrow> pdict \<Rightarrow> pdict \<Rightarrow> bool" where
  \<comment> \<open>two results hold the same value under every key other than \<open>k\<close>; when \<open>k\<close> is a key
      the fill steps work on, they hold the same value there too, unless the first still
      holds the empty string where the second holds \<^verbatim>\<open>None\<close>\<close>
  "agree_but k r1 r0 \<longleftrightarrow>
     (\<forall>j. j \<noteq> k \<longrightarrow> map_of r1 j = map_of r0 j) \<and>
     (k \<in> set option_keys \<longrightarrow>
        map_of r1 k = map_of r0 k \<or> (map_of r1 k = Some (VStr []) \<and> map_of r0 k = Some VNone))"

definition keeps_set :: "pdict \<Rightarrow> pdict \<Rightarrow> bool" where
  \<comment> \<open>\<open>r'\<close> differs from \<open>r\<close> only under option keys whose value in \<open>r\<close> is falsy\<close>
  "keeps_set r' r \<longleftrightarrow>
     (\<forall>j. map_of r' j = map_of r j \<or> (j \<in> set option_keys \<and> \<not> truthy (dict_get r j)))"

definition text_or_none :: "pval \<Rightarrow> bool" where
  \<comment> \<open>the values an \<^verbatim>\<open>Optional[str]\<close> field dumps to\<close>
  "text_or_none v = (case v of VNone \<Rightarrow> True | VStr s \<Rightarrow> True | _ \<Rightarrow> False)"

definition priced_fields_text :: "pdict \<Rightarrow> bool" where
  \<comment> \<open>the three fields the price estimation lower-cases hold text or nothing\<close>
  "priced_fields_text r \<longleftrightarrow>
     text_or_none (dict_get r ''fabric'') \<and> text_or_none (dict_get r ''pattern'') \<and>
     text_or_none (dict_get r ''fit'')"

section \<open>Concrete inputs\<close>

definition empty_store :: env where
  \<comment> \<open>a store with no product: every listing is empty and no identifier is accepted\<close>
  "empty_store =
     \<lparr>get_documents = (\<lambda>coll filt limit. []),
      find_product = (\<lambda>pid. Inl InvalidId),
      py_str = (\<lambda>v. case v of VOid h \<Rightarrow> h | VStr s \<Rightarrow> s | _ \<Rightarrow> [])\<rparr>"

definition panama_hat :: pdict where
  \<comment> \<open>a stored product document, as \<^verbatim>\<open>Product\<close> dumps it, with the store's \<^verbatim>\<open>_id\<close>\<close>
  "panama_hat =
     [(''_id'', VOid ''65f1c0a2b3d4e5f6a7b8c9d0''),
      (''title'', VStr ''Montecristi Panama Hat''),
      (''description'', VNone),
      (''category'', VStr ''hat''),
      (''base_price'', VFloat (Finite 1000)),
      (''images'', VList []),
      (''colors'', VList [VStr ''cream'']),
      (''fabrics'', VList [VStr ''toquilla straw'']),
      (''sizes'', VList [VStr ''M'', VStr ''L'']),
      (''fits'', VList []),
      (''patterns'', VList []),
      (''tags'', VList []),
      (''in_stock'', VBool True)]"

definition hat_store :: env where
  \<comment> \<open>a store whose only product is \<open>panama_hat\<close>\<close>
  "hat_store =
     \<lparr>get_documents = (\<lambda>coll filt limit.
        if coll = ''product'' \<and> (filt = [] \<or> filt = [(''category'', VStr ''hat'')])
        then take limit [panama_hat] else []),
      find_product = (\<lambda>pid. if pid = ''65f1c0a2b3d4e5f6a7b8c9d0'' then Inr (Some panama_hat)
                             else if length pid = 24 then Inr None else Inl InvalidId),
      py_str = (\<lambda>v. case v of VOid h \<Rightarrow> h | VStr s \<Rightarrow> s | _ \<Rightarrow> [])\<rparr>"

definition wedding_classic_request :: recommendation_request where
  "wedding_classic_request =
     blank_request\<lparr>purpose := Some ''Beach Wedding'', style := Some ''Classic''\<rparr>"

definition priced_hat :: "pyfloat \<Rightarrow> pdict" where
  \<comment> \<open>the document \<open>panama_hat\<close> with another base price; a hat made of straw earns no
      bonus, so the estimated price is the base price rounded to two places\<close>
  "priced_hat price = AList.update ''base_price'' (VFloat price) panama_hat"

definition thrifty_request :: recommendation_request where
  "thrifty_request = blank_request\<lparr>budget := Some (Finite 200)\<rparr>"

definition frugal_request :: recommendation_request where
  "frugal_request = blank_request\<lparr>budget := Some (Finite 100)\<rparr>"

definition zero_budget_request :: recommendation_request where
  "zero_budget_request = blank_request\<lparr>budget := Some (Finite 0)\<rparr>"

definition suit_request :: customization where
  \<comment> \<open>\<^verbatim>\<open>Customization(category="suit")\<close>: every optional field unset\<close>
  "suit_request =
     \<lparr>product_id = None, category = ''suit'', color = None, fabric = None, size_opt = None,
      fit = None, pattern = None, preferences = None, auto = False, measurements = None\<rparr>"

definition red_suit_request :: customization where
  "red_suit_request = suit_request\<lparr>color := Some ''red''\<rparr>"

definition bad_id_request :: customization where
  "bad_id_request = suit_request\<lparr>product_id := Some ''not-an-object-id''\<rparr>"

definition chest_request :: "rat \<Rightarrow> customization" where
  \<comment> \<open>a request for a belt that gives the chest measurement only\<close>
  "chest_request c =
     suit_request\<lparr>category := ''belt'',
       measurements := Some \<lparr>height_cm = None, weight_kg = None, chest_cm = Some (Finite c),
         waist_cm = None, hips_cm = None, sleeve_cm = None, inseam_cm = None\<rparr>\<rparr>"

definition navy_product :: pdict where
  "navy_product =
     [(''title'', VStr ''Blazer''), (''category'', VStr ''suit''),
      (''base_price'', VFloat (Finite 200)), (''colors'', VList [VStr ''navy'']),
      (''fabrics'', VList [VStr ''Cashmere Wool Blend'']), (''sizes'', VList []),
      (''fits'', VList [VStr ''Slim'']), (''patterns'', VList [VStr ''Pinstripe''])]"


section \<open>Properties\<close>

subsection \<open>What the engine reads of a result\<close>

text \<open>
  The fill steps and the price estimation read a result only through the truthiness of the
  values under the option keys, and through those values when truthy. So two results that
  agree but for one key keep doing so through every step, and are priced alike.
\<close>

lemma map_of_update: "map_of (AList.update k v al) j = (if j = k then Some v else map_of al j)"
  by (simp add: update_conv')

lemma dict_get_update:
  "dict_get (AList.update k v al) j = (if j = k then v else dict_get al j)"
  by (simp add: dict_get_def map_of_update)

lemma agree_but_get:
  assumes "agree_but k r1 r0" and "j \<in> set option_keys"
  shows "truthy (dict_get r1 j) = truthy (dict_get r0 j)"
    and "truthy (dict_get r1 j) \<Longrightarrow> dict_get r1 j = dict_get r0 j"
proof -
  have "map_of r1 j = map_of r0 j \<or> (map_of r1 j = Some (VStr []) \<and> map_of r0 j = Some VNone)"
    using assms unfolding agree_but_def by (cases "j = k") blast+
  then show "truthy (dict_get r1 j) = truthy (dict_get r0 j)"
    and "truthy (dict_get r1 j) \<Longrightarrow> dict_get r1 j = dict_get r0 j"
    by (auto simp: dict_get_def)
qed

lemma agree_but_update:
  "agree_but k r1 r0 \<Longrightarrow> agree_but k (AList.update j x r1) (AList.update j x r0)"
  by (auto simp: agree_but_def map_of_update dict_get_update)

lemma agree_but_inherit_key:
  assumes "agree_but k r1 r0" and "j \<in> set option_keys"
  shows "agree_but k (inherit_key p r1 j) (inherit_key p r0 j)"
proof -
  have t: "truthy (dict_get r1 j) = truthy (dict_get r0 j)"
    using assms by (rule agree_but_get(1))
  show ?thesis
    unfolding inherit_key_def Let_def t
    using assms(1) by (auto intro: agree_but_update split: pval.splits list.splits)
qed

lemma agree_but_foldl_inherit:
  "agree_but k r1 r0 \<Longrightarrow> set js \<subseteq> set option_keys \<Longrightarrow>
   agree_but k (foldl (inherit_key p) r1 js) (foldl (inherit_key p) r0 js)"
  by (induction js arbitrary: r1 r0) (auto intro: agree_but_inherit_key)

lemma agree_but_inherit_options:
  "agree_but k r1 r0 \<Longrightarrow> agree_but k (inherit_options product r1) (inherit_options product r0)"
  by (auto simp: inherit_options_def intro: agree_but_foldl_inherit split: option.splits)

lemma agree_but_default_key:
  assumes "agree_but k r1 r0" and "fst kv \<in> set option_keys"
  shows "agree_but k (default_key r1 kv) (default_key r0 kv)"
proof -
  obtain j v where kv: "kv = (j, v)" by (cases kv)
  have "(if truthy (dict_get r1 j) then dict_get r1 j else v) =
        (if truthy (dict_get r0 j) then dict_get r0 j else v)"
    using agree_but_get [OF assms(1), of j] assms(2) kv by auto
  then show ?thesis
    using assms(1) kv by (simp add: default_key_def agree_but_update)
qed

lemma agree_but_apply_defaults:
  "agree_but k r1 r0 \<Longrightarrow> fst ` set base \<subseteq> set option_keys \<Longrightarrow>
   agree_but k (apply_defaults base r1) (apply_defaults base r0)"
  unfolding apply_defaults_def
  by (induction base arbitrary: r1 r0) (auto intro: agree_but_default_key)

lemma defaults_keys:
  "list_all (\<lambda>cb. list_all (\<lambda>kv. fst kv \<in> set option_keys) (snd cb)) defaults"
  by code_simp

lemma category_defaults_keys: "fst ` set (category_defaults cat) \<subseteq> set option_keys"
proof (cases "map_of defaults cat")
  case None
  then show ?thesis by (simp add: category_defaults_def)
next
  case (Some b)
  then have "(cat, b) \<in> set defaults" by (rule map_of_SomeD)
  then have "list_all (\<lambda>kv. fst kv \<in> set option_keys) b"
    using defaults_keys by (auto simp: list_all_iff)
  then show ?thesis
    using Some by (auto simp: category_defaults_def list_all_iff)
qed

lemma size_is_option_key: "''size'' \<in> set option_keys"
  by (simp add: option_keys_def)

lemma agree_but_infer_size:
  assumes "agree_but k r1 r0"
  shows "agree_but k (infer_size m r1) (infer_size m r0)"
proof -
  have t: "truthy (dict_get r1 ''size'') = truthy (dict_get r0 ''size'')"
    using assms size_is_option_key by (rule agree_but_get(1))
  show ?thesis
    unfolding infer_size_def t
    using assms by (auto intro: agree_but_update split: option.splits)
qed

lemma agree_but_multipliers:
  assumes "agree_but k r1 r0"
  shows "fabric_multiplier r1 m = fabric_multiplier r0 m"
    and "pattern_multiplier r1 m = pattern_multiplier r0 m"
    and "fit_multiplier r1 m = fit_multiplier r0 m"
proof -
  have keys: "''fabric'' \<in> set option_keys" "''pattern'' \<in> set option_keys"
    "''fit'' \<in> set option_keys"
    by (simp_all add: option_keys_def)
  note g = agree_but_get [OF assms]
  show "fabric_multiplier r1 m = fabric_multiplier r0 m"
    using g(1) [OF keys(1)] g(2) [OF keys(1)] by (simp add: fabric_multiplier_def)
  show "pattern_multiplier r1 m = pattern_multiplier r0 m"
    using g(1) [OF keys(2)] g(2) [OF keys(2)] by (simp add: pattern_multiplier_def)
  show "fit_multiplier r1 m = fit_multiplier r0 m"
    using g(1) [OF keys(3)] g(2) [OF keys(3)] by (simp add: fit_multiplier_def)
qed

lemma agree_but_estimate_price:
  assumes "agree_but k r1 r0"
  shows "estimate_price product r1 = estimate_price product r0"
  unfolding estimate_price_def agree_but_multipliers [OF assms] ..

lemma agree_but_fill_fields:
  assumes "agree_but k (model_dump c1) (model_dump c0)"
    and "category c1 = category c0" and "measurements c1 = measurements c0"
  shows "agree_but k (fill_fields c1 product) (fill_fields c0 product)"
  unfolding fill_fields_def assms(2) assms(3)
  by (intro agree_but_infer_size agree_but_apply_defaults agree_but_inherit_options assms(1)
        category_defaults_keys)

subsection \<open>What the fill steps write\<close>

text \<open>
  A fill step writes only under an option key whose value is falsy; every other entry of the
  result is the one \<open>model_dump\<close> produced.
\<close>

lemma keeps_set_refl: "keeps_set r r"
  by (simp add: keeps_set_def)

lemma keeps_set_trans:
  assumes "keeps_set r2 r1" and "keeps_set r1 r0"
  shows "keeps_set r2 r0"
  unfolding keeps_set_def
proof
  fix j
  show "map_of r2 j = map_of r0 j \<or> (j \<in> set option_keys \<and> \<not> truthy (dict_get r0 j))"
  proof (cases "map_of r1 j = map_of r0 j")
    case True
    then have g: "dict_get r1 j = dict_get r0 j" by (simp add: dict_get_def)
    have "map_of r2 j = map_of r1 j \<or> (j \<in> set option_keys \<and> \<not> truthy (dict_get r1 j))"
      using assms(1) unfolding keeps_set_def by (rule spec)
    with True g show ?thesis by auto
  next
    case False
    have "map_of r1 j = map_of r0 j \<or> (j \<in> set option_keys \<and> \<not> truthy (dict_get r0 j))"
      using assms(2) unfolding keeps_set_def by (rule spec)
    with False show ?thesis by auto
  qed
qed

lemma keeps_set_update:
  "j \<in> set option_keys \<Longrightarrow> \<not> truthy (dict_get r j) \<Longrightarrow> keeps_set (AList.update j x r) r"
  by (simp add: keeps_set_def map_of_update)

lemma keeps_set_inherit_key:
  assumes "j \<in> set option_keys"
  shows "keeps_set (inherit_key p r j) r"
proof (cases "truthy (dict_get r j)")
  case True
  then show ?thesis by (simp add: inherit_key_def keeps_set_refl)
next
  case False
  with assms show ?thesis
    by (simp add: inherit_key_def Let_def keeps_set_refl keeps_set_update
          split: pval.split list.split)
qed

lemma keeps_set_foldl_inherit:
  "set js \<subseteq> set option_keys \<Longrightarrow> keeps_set (foldl (inherit_key p) r js) r"
proof (induction js arbitrary: r)
  case Nil
  show ?case by (simp add: keeps_set_refl)
next
  case (Cons j js)
  have "keeps_set (foldl (inherit_key p) (inherit_key p r j) js) (inherit_key p r j)"
    using Cons by simp
  moreover have "keeps_set (inherit_key p r j) r"
    using Cons.prems by (simp add: keeps_set_inherit_key)
  ultimately show ?case
    using keeps_set_trans by simp
qed

lemma keeps_set_inherit_options: "keeps_set (inherit_options product r) r"
  by (simp add: inherit_options_def keeps_set_refl keeps_set_foldl_inherit split: option.splits)

lemma keeps_set_default_key:
  assumes "fst kv \<in> set option_keys"
  shows "keeps_set (default_key r kv) r"
proof -
  obtain j v where kv: "kv = (j, v)" by (cases kv)
  show ?thesis
  proof (cases "truthy (dict_get r j)")
    case True
    then have "AList.update j (dict_get r j) r = r \<or> map_of (AList.update j (dict_get r j) r) = map_of r"
      by (auto simp: map_of_update dict_get_def fun_eq_iff split: option.splits)
    then have "map_of (AList.update j (dict_get r j) r) = map_of r" by auto
    with True show ?thesis by (simp add: kv default_key_def keeps_set_def)
  next
    case False
    with assms kv show ?thesis by (simp add: default_key_def keeps_set_update)
  qed
qed

lemma keeps_set_apply_defaults:
  "fst ` set base \<subseteq> set option_keys \<Longrightarrow> keeps_set (apply_defaults base r) r"
  unfolding apply_defaults_def
proof (induction base arbitrary: r)
  case Nil
  show ?case by (simp add: keeps_set_refl)
next
  case (Cons kv base)
  have "keeps_set (foldl default_key (default_key r kv) base) (default_key r kv)"
    using Cons by simp
  moreover have "keeps_set (default_key r kv) r"
    using Cons.prems by (simp add: keeps_set_default_key)
  ultimately show ?case
    using keeps_set_trans by simp
qed

lemma keeps_set_infer_size: "keeps_set (infer_size m r) r"
  by (auto simp: infer_size_def keeps_set_refl keeps_set_update size_is_option_key
           split: option.splits)

lemma keeps_set_fill_fields: "keeps_set (fill_fields cust product) (model_dump cust)"
proof -
  let ?r1 = "inherit_options product (model_dump cust)"
  let ?r2 = "apply_defaults (category_defaults (category cust)) ?r1"
  have "keeps_set ?r1 (model_dump cust)"
    by (rule keeps_set_inherit_options)
  moreover have "keeps_set ?r2 ?r1"
    by (rule keeps_set_apply_defaults) (rule category_defaults_keys)
  moreover have "keeps_set (infer_size (measurements cust) ?r2) ?r2"
    by (rule keeps_set_infer_size)
  ultimately show ?thesis
    unfolding fill_fields_def by (blast intro: keeps_set_trans)
qed

lemma config_is_fill_fields:
  "auto_complete_customization cust product = Inr out \<Longrightarrow> config out = fill_fields cust product"
  by (auto simp: auto_complete_customization_def Let_def split: sum.splits)

lemma est_price_is_estimate:
  "map_sum id est_price (auto_complete_customization cust product) =
   estimate_price product (fill_fields cust product)"
  by (auto simp: auto_complete_customization_def Let_def split: sum.splits)

lemma not_option_key_unchanged:
  assumes "k \<notin> set option_keys"
  shows "map_of (fill_fields cust product) k = map_of (model_dump cust) k"
  using keeps_set_fill_fields [of cust product] assms
  unfolding keeps_set_def by blast

lemma agree_but_map_upd:
  assumes "agree_but k r1 r0" and "map_of r1 k = Some v"
  shows "map_of r1 = (map_of r0)(k \<mapsto> v)"
  using assms by (auto simp: agree_but_def fun_eq_iff)

subsection \<open>The price estimate\<close>

lemma falsy_text_of: "\<not> truthy v \<Longrightarrow> text_of v = []"
  by (cases v) (auto simp: text_of_def)

lemma no_bonus_for_empty:
  "spec_fabric_bonus [] = None" "spec_pattern_bonus [] = None" "spec_fit_bonus [] = None"
  by (simp_all add: spec_fabric_bonus_def spec_pattern_bonus_def spec_fit_bonus_def lower_def)

lemma fabric_multiplier_spec:
  assumes "fabric_multiplier r m = Inr m'"
  shows "m' = add_bonus m (spec_fabric_bonus (text_of (dict_get r ''fabric'')))"
proof (cases "truthy (dict_get r ''fabric'')")
  case False
  with assms show ?thesis
    by (simp add: fabric_multiplier_def falsy_text_of no_bonus_for_empty add_bonus_def)
next
  case True
  with assms obtain s where s: "dict_get r ''fabric'' = VStr s"
    by (cases "dict_get r ''fabric''") (simp_all add: fabric_multiplier_def)
  with assms True show ?thesis
    by (auto simp: fabric_multiplier_def spec_fabric_bonus_def text_of_def add_bonus_def
          split: if_splits)
qed

lemma pattern_multiplier_spec:
  assumes "pattern_multiplier r m = Inr m'"
  shows "m' = add_bonus m (spec_pattern_bonus (text_of (dict_get r ''pattern'')))"
proof (cases "truthy (dict_get r ''pattern'')")
  case False
  with assms show ?thesis
    by (simp add: pattern_multiplier_def falsy_text_of no_bonus_for_empty add_bonus_def)
next
  case True
  with assms obtain s where s: "dict_get r ''pattern'' = VStr s"
    by (cases "dict_get r ''pattern''") (simp_all add: pattern_multiplier_def)
  with assms True show ?thesis
    by (auto simp: pattern_multiplier_def spec_pattern_bonus_def text_of_def add_bonus_def
          split: if_splits)
qed

lemma fit_multiplier_spec:
  assumes "fit_multiplier r m = Inr m'"
  shows "m' = add_bonus m (spec_fit_bonus (text_of (dict_get r ''fit'')))"
proof (cases "truthy (dict_get r ''fit'')")
  case False
  with assms show ?thesis
    by (simp add: fit_multiplier_def falsy_text_of no_bonus_for_empty add_bonus_def)
next
  case True
  with assms obtain s where s: "dict_get r ''fit'' = VStr s"
    by (cases "dict_get r ''fit''") (simp_all add: fit_multiplier_def)
  with assms True show ?thesis
    by (auto simp: fit_multiplier_def spec_fit_bonus_def text_of_def add_bonus_def
          split: if_splits)
qed

lemma base_price_spec: "base_price_of product = spec_base product"
  by (auto simp: base_price_of_def spec_base_def dict_get_default_def split: option.splits)

lemma estimate_price_spec:
  assumes "estimate_price product r = Inr p"
  shows "\<exists>x. py_mul (spec_base product) (spec_multiplier r) = Inr x \<and> p = py_round2 x"
proof -
  from assms obtain m1 where m1: "fabric_multiplier r (Finite 1) = Inr m1"
    by (cases "fabric_multiplier r (Finite 1)") (simp_all add: estimate_price_def)
  from assms m1 obtain m2 where m2: "pattern_multiplier r m1 = Inr m2"
    by (cases "pattern_multiplier r m1") (simp_all add: estimate_price_def)
  from assms m1 m2 obtain m3 where m3: "fit_multiplier r m2 = Inr m3"
    by (cases "fit_multiplier r m2") (simp_all add: estimate_price_def)
  from assms m1 m2 m3 obtain x where x: "py_mul (base_price_of product) m3 = Inr x"
    and p: "p = py_round2 x"
    by (cases "py_mul (base_price_of product) m3") (auto simp: estimate_price_def)
  have "m3 = spec_multiplier r"
    using fabric_multiplier_spec [OF m1] pattern_multiplier_spec [OF m2]
      fit_multiplier_spec [OF m3]
    by (simp add: spec_multiplier_def)
  with x p show ?thesis by (simp add: base_price_spec)
qed

text \<open>
  Claim C1. For every resolved configuration the estimated price is
  \<^verbatim>\<open>round(base * multiplier, 2)\<close>: the base is the \<^verbatim>\<open>base_price\<close> of the supplied product
  (300 when there is none), and the multiplier is 1.0 plus the one fabric bonus (the first
  of cashmere 0.60, wool 0.25, leather 0.35, linen 0.15 that the lower-cased fabric
  contains), plus 0.10 for a pinstripe, herringbone or houndstooth pattern, plus 0.05 for
  a tailored or slim fit, both compared in lower case. For the category suit with no
  product and nothing else set the estimate is 390.0.
\<close>

theorem price_formula:
  "(\<forall>out. auto_complete_customization cust product = Inr out \<longrightarrow>
      (\<exists>x. py_mul (spec_base product) (spec_multiplier (config out)) = Inr x \<and>
           est_price out = py_round2 x)) \<and>
   map_sum id est_price (auto_complete_customization suit_request None) = Inr (Finite 390)"
proof (intro conjI allI impI)
  fix out
  assume a: "auto_complete_customization cust product = Inr out"
  then have "estimate_price product (config out) = Inr (est_price out)"
    by (auto simp: auto_complete_customization_def Let_def split: sum.splits)
  then show "\<exists>x. py_mul (spec_base product) (spec_multiplier (config out)) = Inr x \<and>
           est_price out = py_round2 x"
    by (rule estimate_price_spec)
next
  show "map_sum id est_price (auto_complete_customization suit_request None) = Inr (Finite 390)"
    by code_simp
qed

theorem price_formula_witness:
  "map_sum id est_price (auto_complete_customization red_suit_request (Some navy_product)) =
     Inr (Finite 350) \<and>
   spec_fabric_bonus ''Cashmere Wool Blend'' = Some (fl (60 / 100)) \<and>
   (\<exists>out x. auto_complete_customization red_suit_request (Some navy_product) = Inr out \<and>
      py_mul (VFloat (Finite 200)) (spec_multiplier (config out)) = Inr x \<and>
      est_price out = py_round2 x)"
proof -
  let ?a = "auto_complete_customization red_suit_request (Some navy_product)"
  have e: "map_sum id est_price ?a = Inr (Finite 350)"
    by code_simp
  then obtain out where out: "?a = Inr out"
    by (cases ?a) auto
  have b: "spec_base (Some navy_product) = VFloat (Finite 200)"
    by (simp add: spec_base_def navy_product_def)
  have f: "spec_fabric_bonus ''Cashmere Wool Blend'' = Some (fl (60 / 100))"
    by code_simp
  have "\<exists>x. py_mul (spec_base (Some navy_product)) (spec_multiplier (config out)) = Inr x \<and>
           est_price out = py_round2 x"
    using price_formula [of red_suit_request "Some navy_product", THEN conjunct1, rule_format, OF out] .
  with e f out b show ?thesis by auto
qed

subsection \<open>Size inference\<close>

lemma size_band_spec: "size_band (Finite x) = spec_size x"
  by (auto simp: size_band_def spec_size_def)

text \<open>
  Claim C2. Let the size be still unset (falsy) after product inheritance and category
  defaults, in a request whose measurements passed validation. If a chest measurement is
  present it is a finite number between 60 and 150 and the resolved size is its band: XS
  below 90, S from 90 and below 96, M from 96 and below 102, L from 102 and below 110, XL
  from 110. If none is present the size stays as it was, unset. The resolved configuration
  of a successful completion is this result.
\<close>

theorem size_inference:
  assumes "r = apply_defaults (category_defaults (category cust))
                 (inherit_options product (model_dump cust))"
    and "\<not> truthy (dict_get r ''size'')"
    and "\<forall>m. measurements cust = Some m \<longrightarrow> valid_measurement m"
  shows "(\<forall>c. chest_of cust = Some c \<longrightarrow>
            (\<exists>x. c = Finite x \<and> 60 \<le> x \<and> x \<le> 150 \<and>
                 dict_get (fill_fields cust product) ''size'' = VStr (spec_size x))) \<and>
         (chest_of cust = None \<longrightarrow>
            dict_get (fill_fields cust product) ''size'' = dict_get r ''size'') \<and>
         (\<forall>out. auto_complete_customization cust product = Inr out \<longrightarrow>
            config out = fill_fields cust product)"
proof (intro conjI allI impI)
  fix out
  assume "auto_complete_customization cust product = Inr out"
  then show "config out = fill_fields cust product"
    by (rule config_is_fill_fields)
next
  assume "chest_of cust = None"
  then show "dict_get (fill_fields cust product) ''size'' = dict_get r ''size''"
    using assms(2)
    by (auto simp: fill_fields_def assms(1) [symmetric] infer_size_def chest_of_def
          split: option.splits)
next
  fix c
  assume c: "chest_of cust = Some c"
  then obtain m where m: "measurements cust = Some m" "chest_cm m = Some c"
    by (auto simp: chest_of_def split: option.splits)
  then have "valid_measurement m" using assms(3) by simp
  with m obtain x where x: "c = Finite x" "60 \<le> x" "x \<le> 150"
    by (cases c) (auto simp: valid_measurement_def)
  have "dict_get (infer_size (Some m) r) ''size'' = VStr (spec_size x)"
    using assms(2) m(2) x
    by (simp add: infer_size_def dict_get_update size_band_spec)
  then have "dict_get (fill_fields cust product) ''size'' = VStr (spec_size x)"
    by (simp add: fill_fields_def assms(1) [symmetric] m(1))
  with x show "\<exists>x. c = Finite x \<and> 60 \<le> x \<and> x \<le> 150 \<and>
                 dict_get (fill_fields cust product) ''size'' = VStr (spec_size x)"
    by blast
qed

theorem size_inference_witness:
  "dict_get (fill_fields (chest_request 96) None) ''size'' = VStr ''M'' \<and>
   map_sum id (\<lambda>out. dict_get (config out) ''size'')
     (auto_complete_customization (chest_request 96) None) = Inr (VStr ''M'')"
proof -
  let ?c = "chest_request 96"
  let ?r = "apply_defaults (category_defaults (category ?c)) (inherit_options None (model_dump ?c))"
  have u: "\<not> truthy (dict_get ?r ''size'')"
    by code_simp
  have v: "\<forall>m. measurements ?c = Some m \<longrightarrow> valid_measurement m"
    by (simp add: chest_request_def valid_measurement_def)
  have ch: "chest_of ?c = Some (Finite 96)"
    by (simp add: chest_of_def chest_request_def)
  have "\<exists>x. Finite 96 = Finite x \<and> 60 \<le> x \<and> x \<le> 150 \<and>
          dict_get (fill_fields ?c None) ''size'' = VStr (spec_size x)"
    using size_inference [OF refl u v, THEN conjunct1, rule_format, OF ch] .
  then have s: "dict_get (fill_fields ?c None) ''size'' = VStr (spec_size 96)"
    by auto
  have m: "spec_size 96 = ''M''"
    by (simp add: spec_size_def)
  have "map_sum id (\<lambda>out. dict_get (config out) ''size'')
     (auto_complete_customization ?c None) = Inr (VStr ''M'')"
    by code_simp
  with s m show ?thesis by simp
qed

subsection \<open>User-supplied fields and empty strings\<close>

lemma empty_field_dump:
  assumes "k \<in> set option_keys"
  shows "agree_but k (model_dump (set_option_field k (Some []) cust))
           (model_dump (set_option_field k None cust))"
  using assms
  by (auto simp: agree_but_def model_dump_def set_option_field_def option_keys_def opt_str_def)

lemma set_option_field_others:
  "category (set_option_field k v cust) = category cust"
  "measurements (set_option_field k v cust) = measurements cust"
  by (simp_all add: set_option_field_def)

text \<open>
  Claim C3. Every entry of the request that holds a non-empty (truthy) value is in the
  resolved configuration unchanged. And an option field given as the empty string is
  filled as the missing field is: completing the request with the field set to the empty
  string and with the field unset fails alike or succeeds alike, with the same estimated
  price and the same configuration under every other key; under the key itself both hold
  the same filled value, unless no step had a value to fill in, where each still holds
  what it was given (the empty string, respectively nothing). This holds step by step:
  product inheritance, category defaults and size inference each take two results that
  agree but for an empty string in place of \<^verbatim>\<open>None\<close> to two results that do.
\<close>

theorem user_fields_kept_and_empty_is_missing:
  "(\<forall>out j v. auto_complete_customization cust product = Inr out \<and>
       map_of (model_dump cust) j = Some v \<and> truthy v \<longrightarrow> map_of (config out) j = Some v) \<and>
   (k \<in> set option_keys \<longrightarrow>
      (case (auto_complete_customization (set_option_field k (Some []) cust) product,
             auto_complete_customization (set_option_field k None cust) product) of
         (Inr out1, Inr out0) \<Rightarrow>
            est_price out1 = est_price out0 \<and>
            (\<forall>j. j \<noteq> k \<longrightarrow> map_of (config out1) j = map_of (config out0) j) \<and>
            (map_of (config out1) k = map_of (config out0) k \<or>
             (map_of (config out1) k = Some (VStr []) \<and> map_of (config out0) k = Some VNone))
       | (Inl e1, Inl e0) \<Rightarrow> e1 = e0
       | (Inl e1, Inr out0) \<Rightarrow> False
       | (Inr out1, Inl e0) \<Rightarrow> False)) \<and>
   (\<forall>r1 r0. agree_but k r1 r0 \<longrightarrow>
      agree_but k (inherit_options product r1) (inherit_options product r0) \<and>
      agree_but k (apply_defaults (category_defaults (category cust)) r1)
        (apply_defaults (category_defaults (category cust)) r0) \<and>
      agree_but k (infer_size (measurements cust) r1) (infer_size (measurements cust) r0))"
proof (intro conjI allI impI)
  fix out j v
  assume a: "auto_complete_customization cust product = Inr out \<and>
       map_of (model_dump cust) j = Some v \<and> truthy v"
  then have c: "config out = fill_fields cust product"
    by (simp add: config_is_fill_fields)
  have "map_of (fill_fields cust product) j = map_of (model_dump cust) j \<or>
        (j \<in> set option_keys \<and> \<not> truthy (dict_get (model_dump cust) j))"
    using keeps_set_fill_fields [of cust product] unfolding keeps_set_def by (rule spec)
  with a c show "map_of (config out) j = Some v"
    by (auto simp: dict_get_def)
next
  assume k: "k \<in> set option_keys"
  let ?c1 = "set_option_field k (Some []) cust"
  let ?c0 = "set_option_field k None cust"
  have ag: "agree_but k (fill_fields ?c1 product) (fill_fields ?c0 product)"
    by (rule agree_but_fill_fields)
       (simp_all add: empty_field_dump [OF k] set_option_field_others)
  have pr: "estimate_price product (fill_fields ?c1 product) =
      estimate_price product (fill_fields ?c0 product)"
    using ag by (rule agree_but_estimate_price)
  have others: "\<forall>j. j \<noteq> k \<longrightarrow>
      map_of (fill_fields ?c1 product) j = map_of (fill_fields ?c0 product) j"
    using ag by (simp add: agree_but_def)
  have at_k: "map_of (fill_fields ?c1 product) k = map_of (fill_fields ?c0 product) k \<or>
      (map_of (fill_fields ?c1 product) k = Some (VStr []) \<and>
       map_of (fill_fields ?c0 product) k = Some VNone)"
    using ag k by (simp add: agree_but_def)
  show "case (auto_complete_customization ?c1 product,
             auto_complete_customization ?c0 product) of
         (Inr out1, Inr out0) \<Rightarrow>
            est_price out1 = est_price out0 \<and>
            (\<forall>j. j \<noteq> k \<longrightarrow> map_of (config out1) j = map_of (config out0) j) \<and>
            (map_of (config out1) k = map_of (config out0) k \<or>
             (map_of (config out1) k = Some (VStr []) \<and> map_of (config out0) k = Some VNone))
       | (Inl e1, Inl e0) \<Rightarrow> e1 = e0
       | (Inl e1, Inr out0) \<Rightarrow> False
       | (Inr out1, Inl e0) \<Rightarrow> False"
    using pr others at_k
    by (cases "estimate_price product (fill_fields ?c0 product)")
       (simp_all add: auto_complete_customization_def Let_def)
next
  fix r1 r0
  assume "agree_but k r1 r0"
  then show "agree_but k (inherit_options product r1) (inherit_options product r0)"
    by (rule agree_but_inherit_options)
next
  fix r1 r0
  assume "agree_but k r1 r0"
  then show "agree_but k (apply_defaults (category_defaults (category cust)) r1)
        (apply_defaults (category_defaults (category cust)) r0)"
    using category_defaults_keys by (rule agree_but_apply_defaults)
next
  fix r1 r0
  assume "agree_but k r1 r0"
  then show "agree_but k (infer_size (measurements cust) r1) (infer_size (measurements cust) r0)"
    by (rule agree_but_infer_size)
qed

theorem user_fields_kept_and_empty_is_missing_witness:
  "(\<exists>out. auto_complete_customization red_suit_request (Some navy_product) = Inr out \<and>
          map_of (config out) ''color'' = Some (VStr ''red'')) \<and>
   map_sum id est_price
     (auto_complete_customization (set_option_field ''fabric'' (Some []) red_suit_request)
        (Some navy_product)) =
   map_sum id est_price
     (auto_complete_customization (set_option_field ''fabric'' None red_suit_request)
        (Some navy_product))"
proof -
  let ?p = "Some navy_product"
  let ?a1 = "auto_complete_customization (set_option_field ''fabric'' (Some []) red_suit_request) ?p"
  let ?a0 = "auto_complete_customization (set_option_field ''fabric'' None red_suit_request) ?p"
  note th = user_fields_kept_and_empty_is_missing [of red_suit_request ?p "''fabric''"]
  have "case auto_complete_customization red_suit_request ?p of
          Inl e \<Rightarrow> False | Inr out \<Rightarrow> True"
    by code_simp
  then obtain out where out: "auto_complete_customization red_suit_request ?p = Inr out"
    by (cases "auto_complete_customization red_suit_request ?p") auto
  have d: "map_of (model_dump red_suit_request) ''color'' = Some (VStr ''red'')"
    by (simp add: model_dump_def red_suit_request_def suit_request_def opt_str_def)
  have kept: "map_of (config out) ''color'' = Some (VStr ''red'')"
    using th [THEN conjunct1, rule_format, of out "''color''" "VStr ''red''"] out d by simp
  have k: "''fabric'' \<in> set option_keys"
    by (simp add: option_keys_def)
  have "case (?a1, ?a0) of
         (Inr out1, Inr out0) \<Rightarrow>
            est_price out1 = est_price out0 \<and>
            (\<forall>j. j \<noteq> ''fabric'' \<longrightarrow> map_of (config out1) j = map_of (config out0) j) \<and>
            (map_of (config out1) ''fabric'' = map_of (config out0) ''fabric'' \<or>
             (map_of (config out1) ''fabric'' = Some (VStr []) \<and>
              map_of (config out0) ''fabric'' = Some VNone))
       | (Inl e1, Inl e0) \<Rightarrow> e1 = e0
       | (Inl e1, Inr out0) \<Rightarrow> False
       | (Inr out1, Inl e0) \<Rightarrow> False"
    using th [THEN conjunct2, THEN conjunct1, rule_format, OF k] .
  then have "map_sum id est_price ?a1 = map_sum id est_price ?a0"
    by (cases ?a1; cases ?a0) simp_all
  with out kept show ?thesis by blast
qed

subsection \<open>The flag \<^verbatim>\<open>auto\<close>\<close>

lemma auto_dump:
  "agree_but ''auto'' (model_dump (cust\<lparr>auto := b\<rparr>)) (model_dump cust)"
  by (simp add: agree_but_def model_dump_def option_keys_def)

text \<open>
  Claim C9, as amended. Two requests that differ only in the flag \<^verbatim>\<open>auto\<close>, completed with
  the same optional product, fail alike or succeed alike; when they succeed the estimated
  prices are equal and the configurations are the same dictionary but for the entry
  \<^verbatim>\<open>auto\<close>, which echoes the flag of the request.
\<close>

theorem auto_flag_only_echoed:
  "(case (auto_complete_customization (cust\<lparr>auto := b\<rparr>) product,
          auto_complete_customization cust product) of
      (Inr out', Inr out) \<Rightarrow>
         est_price out' = est_price out \<and>
         map_of (config out') = (map_of (config out))(''auto'' \<mapsto> VBool b)
    | (Inl e', Inl e) \<Rightarrow> e' = e
    | (Inl e', Inr out) \<Rightarrow> False
    | (Inr out', Inl e) \<Rightarrow> False)"
proof -
  let ?c = "cust\<lparr>auto := b\<rparr>"
  have ag: "agree_but ''auto'' (fill_fields ?c product) (fill_fields cust product)"
    by (rule agree_but_fill_fields) (simp_all add: auto_dump)
  have "map_of (fill_fields ?c product) ''auto'' = map_of (model_dump ?c) ''auto''"
    by (rule not_option_key_unchanged) (simp add: option_keys_def)
  then have "map_of (fill_fields ?c product) ''auto'' = Some (VBool b)"
    by (simp add: model_dump_def)
  with ag have cfg: "map_of (fill_fields ?c product) =
      (map_of (fill_fields cust product))(''auto'' \<mapsto> VBool b)"
    by (rule agree_but_map_upd)
  have pr: "estimate_price product (fill_fields ?c product) =
      estimate_price product (fill_fields cust product)"
    using ag by (rule agree_but_estimate_price)
  show ?thesis
    using cfg pr
    by (cases "estimate_price product (fill_fields cust product)")
       (simp_all add: auto_complete_customization_def Let_def)
qed

text \<open>
  The claim as stated ("identical resolved configurations") fails: the configuration is the
  dump of the request, so its entry \<^verbatim>\<open>auto\<close> is the flag itself, and the two outputs differ.
\<close>

theorem auto_flag_is_in_the_output:
  "map_sum id (\<lambda>out. dict_get (config out) ''auto'')
      (auto_complete_customization (suit_request\<lparr>auto := True\<rparr>) None) = Inr (VBool True) \<and>
   map_sum id (\<lambda>out. dict_get (config out) ''auto'')
      (auto_complete_customization suit_request None) = Inr (VBool False) \<and>
   auto_complete_customization (suit_request\<lparr>auto := True\<rparr>) None \<noteq>
     auto_complete_customization suit_request None"
proof -
  have a: "map_sum id (\<lambda>out. dict_get (config out) ''auto'')
      (auto_complete_customization (suit_request\<lparr>auto := True\<rparr>) None) = Inr (VBool True)"
    by code_simp
  have b: "map_sum id (\<lambda>out. dict_get (config out) ''auto'')
      (auto_complete_customization suit_request None) = Inr (VBool False)"
    by code_simp
  from a b have "auto_complete_customization (suit_request\<lparr>auto := True\<rparr>) None \<noteq>
     auto_complete_customization suit_request None"
    by (metis pval.inject(1) sum.inject(2))
  with a b show ?thesis by blast
qed

subsection \<open>Completion without a product\<close>

text \<open>
  Without a product the three priced fields hold text (the user's, or a category default)
  or nothing, and the base price is 300: the engine returns a completion.
\<close>

lemma defaults_values_text:
  "list_all (\<lambda>cb. list_all (\<lambda>kv. text_or_none (snd kv)) (snd cb)) defaults"
  by code_simp

lemma category_defaults_text: "kv \<in> set (category_defaults cat) \<Longrightarrow> text_or_none (snd kv)"
proof (cases "map_of defaults cat")
  case None
  assume "kv \<in> set (category_defaults cat)"
  with None show ?thesis by (simp add: category_defaults_def)
next
  case (Some b)
  assume kv: "kv \<in> set (category_defaults cat)"
  from Some have "(cat, b) \<in> set defaults" by (rule map_of_SomeD)
  then have "list_all (\<lambda>kv. text_or_none (snd kv)) b"
    using defaults_values_text by (auto simp: list_all_iff)
  then show ?thesis
    using Some kv by (auto simp: category_defaults_def list_all_iff)
qed

lemma priced_fields_text_default_key:
  assumes "priced_fields_text r" and "text_or_none (snd kv)"
  shows "priced_fields_text (default_key r kv)"
proof -
  obtain j v where kv: "kv = (j, v)" by (cases kv)
  show ?thesis
    using assms unfolding kv default_key_def priced_fields_text_def
    by (auto simp: dict_get_update)
qed

lemma priced_fields_text_apply_defaults:
  "priced_fields_text r \<Longrightarrow> \<forall>kv\<in>set base. text_or_none (snd kv) \<Longrightarrow>
   priced_fields_text (apply_defaults base r)"
  unfolding apply_defaults_def
  by (induction base arbitrary: r) (simp_all add: priced_fields_text_default_key)

lemma priced_fields_text_infer_size:
  "priced_fields_text r \<Longrightarrow> priced_fields_text (infer_size m r)"
  by (auto simp: infer_size_def priced_fields_text_def dict_get_update split: option.splits)

lemma priced_fields_text_dump: "priced_fields_text (model_dump cust)"
  by (simp add: priced_fields_text_def model_dump_def dict_get_def opt_str_def text_or_none_def
        split: option.splits)

lemma priced_fields_text_no_product: "priced_fields_text (fill_fields cust None)"
  unfolding fill_fields_def
  by (intro priced_fields_text_infer_size priced_fields_text_apply_defaults)
     (auto simp: inherit_options_def priced_fields_text_dump category_defaults_text)

lemma text_multipliers:
  assumes "priced_fields_text r"
  shows "\<exists>m'. fabric_multiplier r m = Inr m'"
    and "\<exists>m'. pattern_multiplier r m = Inr m'"
    and "\<exists>m'. fit_multiplier r m = Inr m'"
  using assms
  by (auto simp: priced_fields_text_def text_or_none_def fabric_multiplier_def
        pattern_multiplier_def fit_multiplier_def split: pval.splits)

lemma fl_300: "int_to_float 300 = Inr (Finite 300)"
  by code_simp

lemma no_product_no_error: "\<exists>out. auto_complete_customization cust None = Inr out"
proof -
  let ?r = "fill_fields cust None"
  have t: "priced_fields_text ?r" by (rule priced_fields_text_no_product)
  obtain m1 where m1: "fabric_multiplier ?r (Finite 1) = Inr m1"
    using text_multipliers(1) [OF t] by blast
  obtain m2 where m2: "pattern_multiplier ?r m1 = Inr m2"
    using text_multipliers(2) [OF t] by blast
  obtain m3 where m3: "fit_multiplier ?r m2 = Inr m3"
    using text_multipliers(3) [OF t] by blast
  have "estimate_price None ?r = Inr (py_round2 (fmul (Finite 300) m3))"
    by (simp add: estimate_price_def base_price_of_def m1 m2 m3 fl_300)
  then show ?thesis
    by (simp add: auto_complete_customization_def)
qed

subsection \<open>An unresolvable product identifier\<close>

lemma product_id_dump:
  "agree_but ''product_id'' (model_dump cust) (model_dump (cust\<lparr>product_id := None\<rparr>))"
  by (simp add: agree_but_def model_dump_def option_keys_def)

text \<open>
  Claim C7, as amended. When the product identifier of the request is malformed (the lookup
  raises) or names no stored product, \<^verbatim>\<open>customize\<close> raises no error, and it returns the
  estimated price of the same request without a product identifier, and its configuration
  but for the entry \<^verbatim>\<open>product_id\<close>, which echoes the identifier of the request.
\<close>

theorem unresolved_product_id:
  assumes "product_id cust = Some pid"
    and "find_product ev pid = Inl e \<or> find_product ev pid = Inr None"
  shows "\<exists>out out0.
           customize ev cust = Inr out \<and>
           customize ev (cust\<lparr>product_id := None\<rparr>) = Inr out0 \<and>
           est_price out = est_price out0 \<and>
           map_of (config out) = (map_of (config out0))(''product_id'' \<mapsto> VStr pid)"
proof -
  let ?c0 = "cust\<lparr>product_id := None\<rparr>"
  have l: "load_product ev cust = None"
    using assms by (auto simp: load_product_def)
  have l0: "load_product ev ?c0 = None"
    by (simp add: load_product_def)
  obtain out0 where out0: "auto_complete_customization ?c0 None = Inr out0"
    using no_product_no_error by blast
  obtain out where out: "auto_complete_customization cust None = Inr out"
    using no_product_no_error by blast
  have ag: "agree_but ''product_id'' (fill_fields cust None) (fill_fields ?c0 None)"
    by (rule agree_but_fill_fields) (simp_all add: product_id_dump)
  have "map_of (fill_fields cust None) ''product_id'' = map_of (model_dump cust) ''product_id''"
    by (rule not_option_key_unchanged) (simp add: option_keys_def)
  then have "map_of (fill_fields cust None) ''product_id'' = Some (VStr pid)"
    using assms(1) by (simp add: model_dump_def opt_str_def)
  with ag have "map_of (fill_fields cust None) =
      (map_of (fill_fields ?c0 None))(''product_id'' \<mapsto> VStr pid)"
    by (rule agree_but_map_upd)
  then have cfg: "map_of (config out) = (map_of (config out0))(''product_id'' \<mapsto> VStr pid)"
    using out out0 by (simp add: config_is_fill_fields)
  have "estimate_price None (fill_fields cust None) = estimate_price None (fill_fields ?c0 None)"
    using ag by (rule agree_but_estimate_price)
  then have "map_sum id est_price (auto_complete_customization cust None) =
      map_sum id est_price (auto_complete_customization ?c0 None)"
    by (simp only: est_price_is_estimate)
  then have pr: "est_price out = est_price out0"
    using out out0 by simp
  show ?thesis
    using out out0 cfg pr by (simp add: customize_def l l0)
qed

theorem unresolved_product_id_witness:
  "\<exists>out out0.
     customize empty_store bad_id_request = Inr out \<and>
     customize empty_store (bad_id_request\<lparr>product_id := None\<rparr>) = Inr out0 \<and>
     est_price out = est_price out0 \<and>
     map_of (config out) = (map_of (config out0))(''product_id'' \<mapsto> VStr ''not-an-object-id'')"
proof -
  have a: "product_id bad_id_request = Some ''not-an-object-id''"
    by (simp add: bad_id_request_def)
  have b: "find_product empty_store ''not-an-object-id'' = Inl InvalidId \<or>
           find_product empty_store ''not-an-object-id'' = Inr None"
    by (simp add: empty_store_def)
  from unresolved_product_id [OF a b] show ?thesis .
qed

text \<open>
  The claim as stated ("exactly the same result") fails: the configuration is the dump of
  the request, so the identifier that could not be resolved is still in the output.
\<close>

theorem product_id_is_in_the_output:
  "find_product empty_store ''not-an-object-id'' = Inl InvalidId \<and>
   map_sum id (\<lambda>out. dict_get (config out) ''product_id'')
      (customize empty_store bad_id_request) = Inr (VStr ''not-an-object-id'') \<and>
   map_sum id (\<lambda>out. dict_get (config out) ''product_id'')
      (customize empty_store (bad_id_request\<lparr>product_id := None\<rparr>)) = Inr VNone \<and>
   customize empty_store bad_id_request \<noteq>
     customize empty_store (bad_id_request\<lparr>product_id := None\<rparr>)"
proof -
  have f: "find_product empty_store ''not-an-object-id'' = Inl InvalidId"
    by (simp add: empty_store_def)
  have a: "map_sum id (\<lambda>out. dict_get (config out) ''product_id'')
      (customize empty_store bad_id_request) = Inr (VStr ''not-an-object-id'')"
    by code_simp
  have b: "map_sum id (\<lambda>out. dict_get (config out) ''product_id'')
      (customize empty_store (bad_id_request\<lparr>product_id := None\<rparr>)) = Inr VNone"
    by code_simp
  from a b have "customize empty_store bad_id_request \<noteq>
     customize empty_store (bad_id_request\<lparr>product_id := None\<rparr>)"
    by (metis pval.distinct(7) sum.inject(2))
  with f a b show ?thesis by blast
qed

subsection \<open>The rationale of a recommendation\<close>

lemma rank_candidate_rationale:
  "rank_candidate ev req p = Inr (Some r) \<Longrightarrow> rationale r = choose_rationale req"
  by (auto simp: rank_candidate_def make_recommendation_def split: sum.splits if_splits)

lemma rank_loop_rationale:
  "rank_loop ev req ps out0 = Inr out \<Longrightarrow>
   \<forall>r\<in>set out0. rationale r = choose_rationale req \<Longrightarrow>
   \<forall>r\<in>set out. rationale r = choose_rationale req"
proof (induction ps arbitrary: out0)
  case Nil
  then show ?case by simp
next
  case (Cons p ps)
  show ?case
  proof (cases "rank_candidate ev req p")
    case (Inl e)
    with Cons.prems show ?thesis by simp
  next
    case (Inr v)
    show ?thesis
    proof (cases v)
      case None
      with Inr Cons show ?thesis by simp
    next
      case (Some r)
      have r: "rationale r = choose_rationale req"
        using Inr Some rank_candidate_rationale by blast
      show ?thesis
      proof (cases "3 \<le> length (out0 @ [r])")
        case True
        with Inr Some Cons.prems r show ?thesis by (auto simp: Let_def)
      next
        case False
        with Inr Some Cons.prems have "rank_loop ev req ps (out0 @ [r]) = Inr out"
          by (simp add: Let_def)
        moreover have "\<forall>x\<in>set (out0 @ [r]). rationale x = choose_rationale req"
          using Cons.prems r by auto
        ultimately show ?thesis by (rule Cons.IH)
      qed
    qed
  qed
qed

lemma choose_rationale_priority:
  "choose_rationale req =
     (if (case purpose req of None \<Rightarrow> False | Some u \<Rightarrow> str_contains ''wedding'' (lower u))
      then ''Formal-appropriate with elevated finishing''
      else if (case style req of None \<Rightarrow> False
               | Some s \<Rightarrow> lower s = ''vintage'' \<or> lower s = ''classic'')
      then ''Vintage-forward aesthetic with timeless details''
      else ''Balanced choice with premium materials'')"
  by (auto simp: choose_rationale_def Let_def lower_def split: option.splits)

text \<open>
  Claim C5. Every recommendation the ranker returns carries the rationale chosen by
  priority: the wedding text when the purpose contains "wedding" (case-insensitively),
  whatever the style; else the vintage text when the style is "vintage" or "classic"
  (case-insensitively); else the default text.
\<close>

theorem rationale_by_priority:
  assumes "recommendations ev req = Inr out"
  shows "\<forall>r\<in>set out. rationale r =
     (if (case purpose req of None \<Rightarrow> False | Some u \<Rightarrow> str_contains ''wedding'' (lower u))
      then ''Formal-appropriate with elevated finishing''
      else if (case style req of None \<Rightarrow> False
               | Some s \<Rightarrow> lower s = ''vintage'' \<or> lower s = ''classic'')
      then ''Vintage-forward aesthetic with timeless details''
      else ''Balanced choice with premium materials'')"
proof -
  have "\<forall>r\<in>set out. rationale r = choose_rationale req"
    using assms rank_loop_rationale [of ev req "candidates ev req" "[]" out]
    by (simp add: recommendations_def)
  then show ?thesis by (simp only: choose_rationale_priority)
qed

theorem rationale_by_priority_witness:
  "(case recommendations empty_store wedding_classic_request of
      Inl e \<Rightarrow> False
    | Inr out \<Rightarrow>
        length out = 3 \<and>
        list_all (\<lambda>r. rationale r = ''Formal-appropriate with elevated finishing'') out)"
proof -
  have "case recommendations empty_store wedding_classic_request of
          Inl e \<Rightarrow> False | Inr out \<Rightarrow> length out = 3"
    by code_simp
  then obtain out where o: "recommendations empty_store wedding_classic_request = Inr out"
    and len: "length out = 3"
    by (cases "recommendations empty_store wedding_classic_request") auto
  have p: "purpose wedding_classic_request = Some ''Beach Wedding''"
    by (simp add: wedding_classic_request_def blank_request_def)
  have w: "str_contains ''wedding'' (lower ''Beach Wedding'')"
    by code_simp
  have "\<forall>r\<in>set out. rationale r = ''Formal-appropriate with elevated finishing''"
    using rationale_by_priority [OF o] p w by simp
  then show ?thesis
    using o len by (simp add: list_all_iff)
qed

subsection \<open>The budget filter\<close>

lemma float_truthy_iff: "float_truthy b \<longleftrightarrow> b \<noteq> Finite 0"
  by (cases b) auto

lemma float_lt_irrefl: "\<not> float_lt x x"
  by (cases x) auto

lemma rank_candidate_skip_iff:
  "complete_candidate req p = Inr cmpl \<Longrightarrow>
   rank_candidate ev req p = Inr None \<longleftrightarrow> over_budget req (est_price cmpl)"
  by (simp add: rank_candidate_def)

text \<open>
  Claim C4, as amended. For a candidate whose completion succeeds: when the request has a
  budget other than zero, the candidate is skipped exactly when its estimated price is
  greater than the double \<open>budget * 1.2\<close>; so a price equal to that product is kept, and
  a price that is 0.01 or more above it is skipped. When the request has no budget, or a
  budget of zero (which the guard \<^verbatim>\<open>req.budget and ...\<close> reads as unset), no candidate is
  skipped. At the budget 100 the product is 120.0: a candidate priced 120.0 is kept and
  one priced 120.01 is skipped.
\<close>

theorem budget_filter:
  assumes "complete_candidate req p = Inr cmpl"
  shows "(case budget req of
            None \<Rightarrow> rank_candidate ev req p \<noteq> Inr None
          | Some b \<Rightarrow>
              if b = Finite 0 then rank_candidate ev req p \<noteq> Inr None
              else ((rank_candidate ev req p = Inr None) =
                      float_gt (est_price cmpl) (fmul b (fl (12 / 10)))) \<and>
                   (est_price cmpl = fmul b (fl (12 / 10)) \<longrightarrow>
                      rank_candidate ev req p \<noteq> Inr None) \<and>
                   (\<forall>t e. fmul b (fl (12 / 10)) = Finite t \<and> est_price cmpl = Finite e \<and>
                          t + 1 / 100 \<le> e \<longrightarrow>
                          rank_candidate ev req p = Inr None))"
proof (cases "budget req")
  case None
  then show ?thesis
    using assms by (simp add: rank_candidate_skip_iff over_budget_def)
next
  case (Some b)
  show ?thesis
  proof (cases "b = Finite 0")
    case True
    with Some show ?thesis
      using assms by (simp add: rank_candidate_skip_iff over_budget_def)
  next
    case False
    then have skip: "(rank_candidate ev req p = Inr None) =
        float_gt (est_price cmpl) (fmul b (fl (12 / 10)))"
      using assms Some by (simp add: rank_candidate_skip_iff over_budget_def float_truthy_iff)
    have eq: "est_price cmpl = fmul b (fl (12 / 10)) \<longrightarrow> rank_candidate ev req p \<noteq> Inr None"
      using skip by (simp add: float_gt_def float_lt_irrefl)
    have above: "\<forall>t e. fmul b (fl (12 / 10)) = Finite t \<and> est_price cmpl = Finite e \<and>
        t + 1 / 100 \<le> e \<longrightarrow> rank_candidate ev req p = Inr None"
      using skip by (auto simp: float_gt_def)
    from Some False skip eq above show ?thesis by simp
  qed
qed

lemma boundary_facts:
  "fmul (Finite 100) (fl (12 / 10)) = Finite 120"
  "fl (12001 / 100) = Finite (8444952988761457 / 70368744177664)"
  "map_sum id est_price (complete_candidate frugal_request (priced_hat (Finite 120))) =
     Inr (Finite 120)"
  "map_sum id est_price (complete_candidate frugal_request (priced_hat (fl (12001 / 100)))) =
     Inr (Finite (8444952988761457 / 70368744177664))"
  by code_simp+

theorem budget_filter_witness:
  "fmul (Finite 100) (fl (12 / 10)) = Finite 120 \<and>
   map_sum id est_price (complete_candidate frugal_request (priced_hat (Finite 120))) =
     Inr (Finite 120) \<and>
   rank_candidate hat_store frugal_request (priced_hat (Finite 120)) \<noteq> Inr None \<and>
   map_sum id est_price (complete_candidate frugal_request (priced_hat (fl (12001 / 100)))) =
     Inr (fl (12001 / 100)) \<and>
   rank_candidate hat_store frugal_request (priced_hat (fl (12001 / 100))) = Inr None"
proof -
  have b: "budget frugal_request = Some (Finite 100)"
    by (simp add: frugal_request_def blank_request_def)
  obtain c1 where c1: "complete_candidate frugal_request (priced_hat (Finite 120)) = Inr c1"
    and p1: "est_price c1 = Finite 120"
    using boundary_facts(3)
    by (cases "complete_candidate frugal_request (priced_hat (Finite 120))") auto
  obtain c2 where c2: "complete_candidate frugal_request (priced_hat (fl (12001 / 100))) = Inr c2"
    and p2: "est_price c2 = Finite (8444952988761457 / 70368744177664)"
    using boundary_facts(4)
    by (cases "complete_candidate frugal_request (priced_hat (fl (12001 / 100)))") auto
  have kept: "rank_candidate hat_store frugal_request (priced_hat (Finite 120)) \<noteq> Inr None"
    using budget_filter [OF c1, of hat_store] b p1 boundary_facts(1)
    by (simp add: float_gt_def)
  have "(120::rat) + 1 / 100 \<le> 8444952988761457 / 70368744177664"
    by simp
  then have dropped:
    "rank_candidate hat_store frugal_request (priced_hat (fl (12001 / 100))) = Inr None"
    using budget_filter [OF c2, of hat_store] b p2 boundary_facts(1)
    by (simp add: float_gt_def)
  show ?thesis
    using kept dropped boundary_facts by simp
qed

text \<open>
  The claim as stated ("with budget set, skipped if and only if the price exceeds
  budget * 1.2") fails for the budget 0: with an empty catalog, the first seed candidate
  is priced 1560, which is greater than 0 * 1.2, and it is kept; all three seed
  candidates are returned.
\<close>

theorem zero_budget_keeps_everything:
  "budget zero_budget_request = Some (Finite 0) \<and>
   map_sum id est_price (complete_candidate zero_budget_request (seed ! 0)) = Inr (Finite 1560) \<and>
   float_gt (Finite 1560) (fmul (Finite 0) (fl (12 / 10))) \<and>
   rank_candidate empty_store zero_budget_request (seed ! 0) \<noteq> Inr None \<and>
   map_sum id (map rec_est_price) (recommendations empty_store zero_budget_request) =
     Inr [Finite 1560, Finite 513, Finite 126]"
  by code_simp

subsection \<open>The fallback seed\<close>

lemma seed_prices:
  "map_sum id est_price (complete_candidate req (seed ! 0)) = Inr (Finite 1560)"
  "map_sum id est_price (complete_candidate req (seed ! 1)) = Inr (Finite 513)"
  "map_sum id est_price (complete_candidate req (seed ! 2)) = Inr (Finite 126)"
  by code_simp+

lemma seed_unfold: "seed = [seed ! 0, seed ! 1, seed ! 2]"
  by (simp add: seed_def)

lemma seed_fields:
  "dict_get (seed ! 0) ''_id'' = VNone" "dict_get (seed ! 1) ''_id'' = VNone"
  "dict_get (seed ! 2) ''_id'' = VNone"
  "dict_get (seed ! 0) ''title'' = VStr ''Savile Row Three-Piece Suit''"
  "dict_get (seed ! 1) ''title'' = VStr ''Full-Grain Leather Boots''"
  "dict_get (seed ! 2) ''title'' = VStr ''Classic Oxford Shirt''"
  "dict_get (seed ! 0) ''category'' = VStr ''suit''"
  "dict_get (seed ! 1) ''category'' = VStr ''boots''"
  "dict_get (seed ! 2) ''category'' = VStr ''shirt''"
  by (simp_all add: seed_def dict_get_def)

lemma kept_seed:
  assumes "map_sum id est_price (complete_candidate req p) = Inr x"
    and "rank_candidate ev req p \<noteq> Inr None"
    and "dict_get p ''_id'' = VNone"
  shows "\<exists>r. rank_candidate ev req p = Inr (Some r) \<and> rec_product_id r = None \<and>
             title r = dict_get p ''title'' \<and> rec_category r = dict_get p ''category'' \<and>
             rec_est_price r = x"
  using assms
  by (cases "complete_candidate req p")
     (auto simp: rank_candidate_def make_recommendation_def split: if_splits)

text \<open>
  Claim C6. When the catalog query returns no product and the budget filter removes none
  of the seed candidates, the ranker returns exactly three recommendations, those of the
  seed set in its order (the suit at base price 1200, the boots at 380, the shirt at 120,
  with their estimated prices), each with no product identifier.
\<close>

theorem empty_catalog_gives_seed:
  assumes "get_documents ev ''product'' (category_filter req) 50 = []"
    and "\<forall>p\<in>set seed. rank_candidate ev req p \<noteq> Inr None"
  shows "\<exists>r1 r2 r3. recommendations ev req = Inr [r1, r2, r3] \<and>
           rec_product_id r1 = None \<and> rec_product_id r2 = None \<and> rec_product_id r3 = None \<and>
           title r1 = VStr ''Savile Row Three-Piece Suit'' \<and> rec_category r1 = VStr ''suit'' \<and>
           rec_est_price r1 = Finite 1560 \<and>
           title r2 = VStr ''Full-Grain Leather Boots'' \<and> rec_category r2 = VStr ''boots'' \<and>
           rec_est_price r2 = Finite 513 \<and>
           title r3 = VStr ''Classic Oxford Shirt'' \<and> rec_category r3 = VStr ''shirt'' \<and>
           rec_est_price r3 = Finite 126"
proof -
  have mem: "seed ! 0 \<in> set seed" "seed ! 1 \<in> set seed" "seed ! 2 \<in> set seed"
    by (simp_all add: seed_def)
  have "rank_candidate ev req (seed ! 0) \<noteq> Inr None"
    using assms(2) mem(1) by blast
  from kept_seed [OF seed_prices(1) this seed_fields(1)]
  obtain r1 where r1: "rank_candidate ev req (seed ! 0) = Inr (Some r1)"
      "rec_product_id r1 = None" "title r1 = VStr ''Savile Row Three-Piece Suit''"
      "rec_category r1 = VStr ''suit''" "rec_est_price r1 = Finite 1560"
    unfolding seed_fields by blast
  have "rank_candidate ev req (seed ! 1) \<noteq> Inr None"
    using assms(2) mem(2) by blast
  from kept_seed [OF seed_prices(2) this seed_fields(2)]
  obtain r2 where r2: "rank_candidate ev req (seed ! 1) = Inr (Some r2)"
      "rec_product_id r2 = None" "title r2 = VStr ''Full-Grain Leather Boots''"
      "rec_category r2 = VStr ''boots''" "rec_est_price r2 = Finite 513"
    unfolding seed_fields by blast
  have "rank_candidate ev req (seed ! 2) \<noteq> Inr None"
    using assms(2) mem(3) by blast
  from kept_seed [OF seed_prices(3) this seed_fields(3)]
  obtain r3 where r3: "rank_candidate ev req (seed ! 2) = Inr (Some r3)"
      "rec_product_id r3 = None" "title r3 = VStr ''Classic Oxford Shirt''"
      "rec_category r3 = VStr ''shirt''" "rec_est_price r3 = Finite 126"
    unfolding seed_fields by blast
  have "take 6 seed = [seed ! 0, seed ! 1, seed ! 2]"
    by (simp add: seed_def)
  then have "candidates ev req = [seed ! 0, seed ! 1, seed ! 2]"
    using assms(1) by (simp only: candidates_def Let_def refl if_True)
  then have "recommendations ev req = Inr [r1, r2, r3]"
    using r1(1) r2(1) r3(1) by (simp add: recommendations_def)
  with r1 r2 r3 show ?thesis by blast
qed

theorem empty_catalog_gives_seed_witness:
  "\<exists>r1 r2 r3. recommendations empty_store blank_request = Inr [r1, r2, r3] \<and>
      rec_product_id r1 = None \<and> rec_product_id r2 = None \<and> rec_product_id r3 = None \<and>
      rec_est_price r1 = Finite 1560 \<and> rec_est_price r2 = Finite 513 \<and>
      rec_est_price r3 = Finite 126"
proof -
  have a: "get_documents empty_store ''product'' (category_filter blank_request) 50 = []"
    by (simp add: empty_store_def)
  have b: "\<forall>p\<in>set seed. rank_candidate empty_store blank_request p \<noteq> Inr None"
    by (auto simp: rank_candidate_def over_budget_def blank_request_def split: sum.splits)
  from empty_catalog_gives_seed [OF a b] show ?thesis by blast
qed

lemma rank_loop_all_skipped:
  "\<forall>p\<in>set ps. rank_candidate ev req p = Inr None \<Longrightarrow> rank_loop ev req ps out = Inr out"
  by (induction ps) simp_all

lemma candidates_of_catalog:
  "get_documents ev ''product'' (category_filter req) 50 \<noteq> [] \<Longrightarrow>
   candidates ev req = take 6 (get_documents ev ''product'' (category_filter req) 50)"
  by (simp add: candidates_def Let_def)

text \<open>
  Claim C10. The seed replaces an empty catalog answer only, before any budget filtering.
  For every store and request: when the catalog answer is not empty, the ranker runs over
  its first six products and nothing else, so it returns the empty list when the budget
  filter skips them all; when the answer is empty, it runs over the seed. There is such a
  request: a store with one hat priced 1000 and a budget of 200. The hat is skipped and the
  result is the empty list, although ranking the seed under this budget would return the
  shirt.
\<close>

theorem seed_only_for_empty_catalog:
  "(get_documents ev ''product'' (category_filter req) 50 \<noteq> [] \<longrightarrow>
      recommendations ev req =
        rank_loop ev req (take 6 (get_documents ev ''product'' (category_filter req) 50)) [] \<and>
      ((\<forall>p\<in>set (take 6 (get_documents ev ''product'' (category_filter req) 50)).
          rank_candidate ev req p = Inr None) \<longrightarrow>
       recommendations ev req = Inr [])) \<and>
   (get_documents ev ''product'' (category_filter req) 50 = [] \<longrightarrow>
      recommendations ev req = rank_loop ev req seed []) \<and>
   get_documents hat_store ''product'' (category_filter thrifty_request) 50 = [panama_hat] \<and>
   rank_candidate hat_store thrifty_request panama_hat = Inr None \<and>
   recommendations hat_store thrifty_request = Inr [] \<and>
   map_sum id (map title) (rank_loop hat_store thrifty_request seed []) =
     Inr [VStr ''Classic Oxford Shirt'']"
proof (intro conjI impI)
  assume ne: "get_documents ev ''product'' (category_filter req) 50 \<noteq> []"
  then show r: "recommendations ev req =
        rank_loop ev req (take 6 (get_documents ev ''product'' (category_filter req) 50)) []"
    by (simp add: recommendations_def candidates_of_catalog)
  assume "\<forall>p\<in>set (take 6 (get_documents ev ''product'' (category_filter req) 50)).
          rank_candidate ev req p = Inr None"
  then show "recommendations ev req = Inr []"
    unfolding r by (rule rank_loop_all_skipped)
next
  assume "get_documents ev ''product'' (category_filter req) 50 = []"
  then show "recommendations ev req = rank_loop ev req seed []"
    by (simp add: recommendations_def candidates_def seed_def)
next
  show "get_documents hat_store ''product'' (category_filter thrifty_request) 50 = [panama_hat]"
    by code_simp
next
  show "rank_candidate hat_store thrifty_request panama_hat = Inr None"
    by code_simp
next
  show "recommendations hat_store thrifty_request = Inr []"
    by code_simp
next
  show "map_sum id (map title) (rank_loop hat_store thrifty_request seed []) =
     Inr [VStr ''Classic Oxford Shirt'']"
    by code_simp
qed

theorem seed_only_for_empty_catalog_witness:
  "get_documents hat_store ''product'' (category_filter frugal_request) 50 \<noteq> [] \<and>
   list_all (\<lambda>p. rank_candidate hat_store frugal_request p = Inr None)
     (take 6 (get_documents hat_store ''product'' (category_filter frugal_request) 50)) \<and>
   recommendations hat_store frugal_request = Inr []"
proof -
  have g: "get_documents hat_store ''product'' (category_filter frugal_request) 50 = [panama_hat]"
    by code_simp
  then have ne: "get_documents hat_store ''product'' (category_filter frugal_request) 50 \<noteq> []"
    by simp
  have sk: "rank_candidate hat_store frugal_request panama_hat = Inr None"
    by code_simp
  then have all: "\<forall>p\<in>set (take 6 (get_documents hat_store ''product''
        (category_filter frugal_request) 50)). rank_candidate hat_store frugal_request p = Inr None"
    by (simp add: g)
  have "recommendations hat_store frugal_request = Inr []"
    using seed_only_for_empty_catalog [of hat_store frugal_request, THEN conjunct1] ne all
    by blast
  with ne all show ?thesis
    by (simp add: list_all_iff)
qed

subsection \<open>The router\<close>








end
